theory Spec2Isabelle
  imports Complex_Main
begin

section \<open>The shot simulator of \<^verbatim>\<open>app.py\<close>\<close>

text \<open>
  The embedding follows \<^verbatim>\<open>simulate_shots\<close> line by line, twice. The first model computes
  in exact arithmetic: Python floats are exact reals (\<open>math.pi\<close> is \<open>pi\<close>, \<open>math.sin\<close> is
  \<open>sin\<close>), Python ints are \<open>int\<close>. The second model, \<open>simulate_shots_float\<close>, has the
  infinities, NaN and the exceptions of float arithmetic; the two agree as long as no
  value leaves the range of a float (\<open>simulate_shots_float_agrees\<close>).
  The two module-level values \<^verbatim>\<open>simulation_shots\<close> and \<^verbatim>\<open>shots\<close> are read when the function
  runs; they are the fields of a configuration, and \<open>module_config\<close> holds the values
  the module assigns. The global random source is the sequence \<open>rng\<close> of the values that
  successive calls of \<^verbatim>\<open>random.random()\<close> return, together with the number of values
  already taken from it.
\<close>

subsection \<open>Module-level values\<close>

record config =
  simulation_shots :: int
  shots :: int

definition module_config :: config where
  "module_config = \<lparr>simulation_shots = 10000, shots = 100\<rparr>"

subsection \<open>Library functions the source calls\<close>

text \<open>\<^verbatim>\<open>math.radians(x)\<close> converts degrees to radians.\<close>

definition radians :: "real \<Rightarrow> real" where
  "radians x = x * pi / 180"

text \<open>
  \<^verbatim>\<open>random.uniform(a, b)\<close> is \<^verbatim>\<open>a + (b - a) * self.random()\<close> in the standard library;
  \<open>u\<close> is the value of that one call of \<^verbatim>\<open>random()\<close>, a number in \<open>[0, 1)\<close>.
\<close>

definition uniform :: "real \<Rightarrow> real \<Rightarrow> real \<Rightarrow> real" where
  "uniform a b u = a + (b - a) * u"

text \<open>
  \<^verbatim>\<open>round(v, ndigits)\<close> rounds to the nearest multiple of \<open>10 ^ (- ndigits)\<close>, a tie going
  to the even neighbour.
\<close>

definition py_round :: "real \<Rightarrow> nat \<Rightarrow> real" where
  "py_round v ndigits =
     (let y = v * 10 ^ ndigits;
          f = \<lfloor>y\<rfloor>;
          d = y - of_int f
      in of_int (if d < 1 / 2 then f
                 else if 1 / 2 < d then f + 1
                 else if even f then f else f + 1) / 10 ^ ndigits)"

subsection \<open>The loop of \<^verbatim>\<open>simulate_shots\<close>\<close>

datatype error = ZeroDivisionError | OverflowError | ValueError

record sim_state =
  draws :: nat
  hits :: int
  hits_x :: "real list"
  hits_y :: "real list"
  misses_x :: "real list"
  misses_y :: "real list"

definition init_state :: sim_state where
  "init_state = \<lparr>draws = 0, hits = 0, hits_x = [], hits_y = [], misses_x = [], misses_y = []\<rparr>"

text \<open>Lines 56 to 59: the landing point computed from the two values drawn for one shot.\<close>

definition draw_shot :: "real \<Rightarrow> real \<Rightarrow> real \<Rightarrow> real \<Rightarrow> real \<times> real" where
  "draw_shot distance moa_radian u v =
     (let radius = uniform 0 (distance * sin (moa_radian / 2)) u;
          angle = uniform 0 (2 * pi) v;
          x = radius * cos angle;
          y = radius * sin angle
      in (x, y))"

text \<open>Line 60: the test \<^verbatim>\<open>(x**2 + y**2) ** 0.5 <= target_radius\<close>.\<close>

definition on_target :: "real \<Rightarrow> real \<times> real \<Rightarrow> bool" where
  "on_target target_radius p = (case p of (x, y) \<Rightarrow> (x\<^sup>2 + y\<^sup>2) powr (1 / 2) \<le> target_radius)"

text \<open>One iteration of the loop, for the index \<open>i\<close> of \<^verbatim>\<open>range(simulation_shots)\<close>.\<close>

definition shot_step ::
  "config \<Rightarrow> (nat \<Rightarrow> real) \<Rightarrow> real \<Rightarrow> real \<Rightarrow> real \<Rightarrow> nat \<Rightarrow> sim_state \<Rightarrow> sim_state" where
  "shot_step cfg rng distance moa_radian target_radius i s =
     (let p = draw_shot distance moa_radian (rng (draws s)) (rng (draws s + 1));
          x = fst p;
          y = snd p;
          s1 = s\<lparr>draws := draws s + 2\<rparr>
      in if on_target target_radius p then
           (let s2 = s1\<lparr>hits := hits s1 + 1\<rparr>
            in if int i < shots cfg
               then s2\<lparr>hits_x := hits_x s2 @ [x], hits_y := hits_y s2 @ [y]\<rparr>
               else s2)
         else if int i < shots cfg
           then s1\<lparr>misses_x := misses_x s1 @ [x], misses_y := misses_y s1 @ [y]\<rparr>
           else s1)"

definition run_loop :: "config \<Rightarrow> (nat \<Rightarrow> real) \<Rightarrow> real \<Rightarrow> real \<Rightarrow> real \<Rightarrow> sim_state" where
  "run_loop cfg rng distance moa_radian target_radius =
     fold (shot_step cfg rng distance moa_radian target_radius)
       [0..<nat (simulation_shots cfg)] init_state"

subsection \<open>The figure and the whole function\<close>

text \<open>
  The figure holds the two scatter traces, the circle of the target and the title. The
  field \<open>hit_probability\<close> is the value of \<^verbatim>\<open>hits / simulation_shots\<close>, the field
  \<open>title_percent\<close> the number printed in the title.
\<close>

record figure =
  trace_hits_x :: "real list"
  trace_hits_y :: "real list"
  trace_misses_x :: "real list"
  trace_misses_y :: "real list"
  circle_radius :: real
  hit_probability :: real
  title_percent :: real

text \<open>
  The function in exact arithmetic returns its result, or the exception it raises, and the
  number of values it took from the random source. In exact arithmetic the only operation
  that can raise is the division in the title, after the loop; \<^verbatim>\<open>OverflowError\<close> and
  \<^verbatim>\<open>ValueError\<close>, which float arithmetic adds, are in \<open>simulate_shots_float\<close>.
\<close>

definition simulate_shots ::
  "config \<Rightarrow> (nat \<Rightarrow> real) \<Rightarrow> real \<Rightarrow> real \<Rightarrow> real \<Rightarrow> (error + figure) \<times> nat" where
  "simulate_shots cfg rng distance target_size moa =
     (let moa_radian = radians (moa / 60);
          target_radius = target_size / 2;
          s = run_loop cfg rng distance moa_radian target_radius
      in if simulation_shots cfg = 0 then (Inl ZeroDivisionError, draws s)
         else
           (let p = of_int (hits s) / of_int (simulation_shots cfg)
            in (Inr \<lparr>trace_hits_x = hits_x s, trace_hits_y = hits_y s,
                     trace_misses_x = misses_x s, trace_misses_y = misses_y s,
                     circle_radius = target_radius,
                     hit_probability = p,
                     title_percent = py_round (p * 100) 2\<rparr>,
                draws s)))"

text \<open>The callback of the page passes the three slider values on.\<close>

definition the_callback_function ::
  "config \<Rightarrow> (nat \<Rightarrow> real) \<Rightarrow> real \<Rightarrow> real \<Rightarrow> real \<Rightarrow> (error + figure) \<times> nat" where
  "the_callback_function cfg rng distance target_size moa =
     simulate_shots cfg rng distance target_size moa"

subsection \<open>Derived notions used to state the properties\<close>

text \<open>The radius of the dispersion cone at the target, the second argument of the first draw.\<close>

definition max_radius :: "real \<Rightarrow> real \<Rightarrow> real" where
  "max_radius distance moa = distance * sin (radians (moa / 60) / 2)"

text \<open>Shot \<open>i\<close> of a run takes the values \<open>2 * i\<close> and \<open>2 * i + 1\<close> of the random source.\<close>

definition shot_at :: "(nat \<Rightarrow> real) \<Rightarrow> real \<Rightarrow> real \<Rightarrow> nat \<Rightarrow> real \<times> real" where
  "shot_at rng distance moa i =
     draw_shot distance (radians (moa / 60)) (rng (2 * i)) (rng (2 * i + 1))"

text \<open>The shots of the first \<open>k\<close> iterations, in the order they are drawn.\<close>

definition shots_upto :: "(nat \<Rightarrow> real) \<Rightarrow> real \<Rightarrow> real \<Rightarrow> nat \<Rightarrow> (real \<times> real) list" where
  "shots_upto rng distance moa k = map (shot_at rng distance moa) [0..<k]"

text \<open>The number of shots among the first \<open>k\<close> that pass the test of line 60.\<close>

definition hit_count :: "(nat \<Rightarrow> real) \<Rightarrow> real \<Rightarrow> real \<Rightarrow> real \<Rightarrow> nat \<Rightarrow> nat" where
  "hit_count rng distance target_size moa k =
     length (filter (on_target (target_size / 2)) (shots_upto rng distance moa k))"

text \<open>The shots whose index is below \<^verbatim>\<open>shots\<close>: the ones the loop appends to a trace.\<close>

definition displayed :: "config \<Rightarrow> (nat \<Rightarrow> real) \<Rightarrow> real \<Rightarrow> real \<Rightarrow> (real \<times> real) list" where
  "displayed cfg rng distance moa =
     shots_upto rng distance moa (min (nat (simulation_shots cfg)) (nat (shots cfg)))"

text \<open>The state of the loop after \<open>k\<close> iterations, in closed form.\<close>

definition loop_state ::
  "config \<Rightarrow> (nat \<Rightarrow> real) \<Rightarrow> real \<Rightarrow> real \<Rightarrow> real \<Rightarrow> nat \<Rightarrow> sim_state" where
  "loop_state cfg rng distance moa target_radius k =
     \<lparr>draws = 2 * k,
      hits = int (length (filter (on_target target_radius) (shots_upto rng distance moa k))),
      hits_x = map fst (filter (on_target target_radius)
                 (shots_upto rng distance moa (min k (nat (shots cfg))))),
      hits_y = map snd (filter (on_target target_radius)
                 (shots_upto rng distance moa (min k (nat (shots cfg))))),
      misses_x = map fst (filter (\<lambda>p. \<not> on_target target_radius p)
                 (shots_upto rng distance moa (min k (nat (shots cfg))))),
      misses_y = map snd (filter (\<lambda>p. \<not> on_target target_radius p)
                 (shots_upto rng distance moa (min k (nat (shots cfg)))))\<rparr>"

subsection \<open>Floats: infinities, NaN and the exceptions of the arithmetic\<close>

text \<open>
  \<open>simulate_shots\<close> above computes in exact arithmetic and so never leaves the range of a
  float. The following model of the same lines adds what Python's floats add: the two
  infinities and NaN as values, and the exceptions. A finite value is kept as the exact
  real (rounding inside the range is not modelled); a result of magnitude
  \<open>2 ^ 1024 - 2 ^ 970\<close> or more, which rounds beyond the largest double, is an infinity.
  Multiplication, addition and comparison never raise. \<^verbatim>\<open>x ** 2\<close> raises
  \<^verbatim>\<open>OverflowError\<close> when \<open>x\<close> is finite and the square is out of range, \<^verbatim>\<open>math.sin\<close> and
  \<^verbatim>\<open>math.cos\<close> raise \<^verbatim>\<open>ValueError\<close> on an infinity, and the division of the title raises
  \<^verbatim>\<open>ZeroDivisionError\<close>.
\<close>

datatype pyfloat = Finite real | PosInf | NegInf | NaN

definition float_limit :: real where
  "float_limit = 2 ^ 1024 - 2 ^ 970"

text \<open>The float of an arithmetic result whose exact value is \<open>r\<close>.\<close>

definition to_float :: "real \<Rightarrow> pyfloat" where
  "to_float r = (if float_limit \<le> r then PosInf
                 else if r \<le> - float_limit then NegInf
                 else Finite r)"

fun float_neg :: "pyfloat \<Rightarrow> pyfloat" where
  "float_neg (Finite a) = Finite (- a)"
| "float_neg PosInf = NegInf"
| "float_neg NegInf = PosInf"
| "float_neg NaN = NaN"

fun float_add :: "pyfloat \<Rightarrow> pyfloat \<Rightarrow> pyfloat" where
  "float_add (Finite a) (Finite b) = to_float (a + b)"
| "float_add NaN b = NaN"
| "float_add a NaN = NaN"
| "float_add PosInf NegInf = NaN"
| "float_add NegInf PosInf = NaN"
| "float_add PosInf b = PosInf"
| "float_add NegInf b = NegInf"
| "float_add a PosInf = PosInf"
| "float_add a NegInf = NegInf"

definition float_sub :: "pyfloat \<Rightarrow> pyfloat \<Rightarrow> pyfloat" where
  "float_sub a b = float_add a (float_neg b)"

fun float_mul :: "pyfloat \<Rightarrow> pyfloat \<Rightarrow> pyfloat" where
  "float_mul (Finite a) (Finite b) = to_float (a * b)"
| "float_mul NaN b = NaN"
| "float_mul a NaN = NaN"
| "float_mul (Finite a) PosInf = (if a = 0 then NaN else if 0 < a then PosInf else NegInf)"
| "float_mul (Finite a) NegInf = (if a = 0 then NaN else if 0 < a then NegInf else PosInf)"
| "float_mul PosInf (Finite b) = (if b = 0 then NaN else if 0 < b then PosInf else NegInf)"
| "float_mul NegInf (Finite b) = (if b = 0 then NaN else if 0 < b then NegInf else PosInf)"
| "float_mul PosInf PosInf = PosInf"
| "float_mul PosInf NegInf = NegInf"
| "float_mul NegInf PosInf = NegInf"
| "float_mul NegInf NegInf = PosInf"

text \<open>Division by a literal: \<open>c\<close> is 60 or 2, never 0.\<close>

fun float_div :: "pyfloat \<Rightarrow> real \<Rightarrow> pyfloat" where
  "float_div (Finite a) c = to_float (a / c)"
| "float_div PosInf c = (if 0 < c then PosInf else NegInf)"
| "float_div NegInf c = (if 0 < c then NegInf else PosInf)"
| "float_div NaN c = NaN"

definition float_radians :: "pyfloat \<Rightarrow> pyfloat" where
  "float_radians x = float_mul x (Finite (pi / 180))"

fun float_sin :: "pyfloat \<Rightarrow> error + pyfloat" where
  "float_sin (Finite a) = Inr (Finite (sin a))"
| "float_sin NaN = Inr NaN"
| "float_sin PosInf = Inl ValueError"
| "float_sin NegInf = Inl ValueError"

fun float_cos :: "pyfloat \<Rightarrow> error + pyfloat" where
  "float_cos (Finite a) = Inr (Finite (cos a))"
| "float_cos NaN = Inr NaN"
| "float_cos PosInf = Inl ValueError"
| "float_cos NegInf = Inl ValueError"

text \<open>\<^verbatim>\<open>x ** 2\<close>.\<close>

fun float_pow2 :: "pyfloat \<Rightarrow> error + pyfloat" where
  "float_pow2 (Finite a) =
     (if float_limit \<le> a\<^sup>2 then Inl OverflowError else Inr (Finite (a\<^sup>2)))"
| "float_pow2 PosInf = Inr PosInf"
| "float_pow2 NegInf = Inr PosInf"
| "float_pow2 NaN = Inr NaN"

text \<open>\<^verbatim>\<open>s ** 0.5\<close>, for the sum of two squares \<open>s\<close>, which is never negative.\<close>

fun float_pow_half :: "pyfloat \<Rightarrow> pyfloat" where
  "float_pow_half (Finite a) = Finite (a powr (1 / 2))"
| "float_pow_half PosInf = PosInf"
| "float_pow_half NegInf = PosInf"
| "float_pow_half NaN = NaN"

text \<open>\<^verbatim>\<open>a <= b\<close>: false as soon as one side is NaN.\<close>

fun float_le :: "pyfloat \<Rightarrow> pyfloat \<Rightarrow> bool" where
  "float_le (Finite a) (Finite b) = (a \<le> b)"
| "float_le NaN b = False"
| "float_le a NaN = False"
| "float_le NegInf b = True"
| "float_le a PosInf = True"
| "float_le PosInf b = False"
| "float_le a NegInf = False"

definition float_uniform :: "pyfloat \<Rightarrow> pyfloat \<Rightarrow> real \<Rightarrow> pyfloat" where
  "float_uniform a b u = float_add a (float_mul (float_sub b a) (Finite u))"

record float_state =
  fdraws :: nat
  fhits :: int
  fhits_x :: "pyfloat list"
  fhits_y :: "pyfloat list"
  fmisses_x :: "pyfloat list"
  fmisses_y :: "pyfloat list"

definition float_init_state :: float_state where
  "float_init_state =
     \<lparr>fdraws = 0, fhits = 0, fhits_x = [], fhits_y = [], fmisses_x = [], fmisses_y = []\<rparr>"

text \<open>
  One iteration, in the order the source evaluates: the argument of the first
  \<^verbatim>\<open>random.uniform\<close>, with its \<^verbatim>\<open>math.sin\<close>, before the first draw; the two draws; the
  coordinates; the two squares of line 60. An exception comes with the number of values
  taken from the random source when it is raised.
\<close>

definition float_shot_step ::
  "config \<Rightarrow> (nat \<Rightarrow> real) \<Rightarrow> pyfloat \<Rightarrow> pyfloat \<Rightarrow> pyfloat \<Rightarrow> nat \<Rightarrow> float_state
     \<Rightarrow> (error \<times> nat) + float_state" where
  "float_shot_step cfg rng distance moa_radian target_radius i s =
     (case float_sin (float_div moa_radian 2) of
        Inl e \<Rightarrow> Inl (e, fdraws s)
      | Inr sn \<Rightarrow>
          (let radius = float_uniform (Finite 0) (float_mul distance sn) (rng (fdraws s));
               angle = float_uniform (Finite 0) (Finite (2 * pi)) (rng (fdraws s + 1));
               k = fdraws s + 2
           in case float_cos angle of
                Inl e \<Rightarrow> Inl (e, k)
              | Inr c \<Rightarrow>
                  (case float_sin angle of
                     Inl e \<Rightarrow> Inl (e, k)
                   | Inr sa \<Rightarrow>
                       (let x = float_mul radius c;
                            y = float_mul radius sa
                        in case float_pow2 x of
                             Inl e \<Rightarrow> Inl (e, k)
                           | Inr xx \<Rightarrow>
                               (case float_pow2 y of
                                  Inl e \<Rightarrow> Inl (e, k)
                                | Inr yy \<Rightarrow>
                                    (let s1 = s\<lparr>fdraws := k\<rparr>
                                     in if float_le (float_pow_half (float_add xx yy)) target_radius
                                        then
                                          (let s2 = s1\<lparr>fhits := fhits s1 + 1\<rparr>
                                           in if int i < shots cfg
                                              then Inr (s2\<lparr>fhits_x := fhits_x s2 @ [x],
                                                             fhits_y := fhits_y s2 @ [y]\<rparr>)
                                              else Inr s2)
                                        else if int i < shots cfg
                                          then Inr (s1\<lparr>fmisses_x := fmisses_x s1 @ [x],
                                                         fmisses_y := fmisses_y s1 @ [y]\<rparr>)
                                          else Inr s1))))))"

text \<open>The loop stops at the first iteration that raises.\<close>

fun float_loop ::
  "(nat \<Rightarrow> float_state \<Rightarrow> (error \<times> nat) + float_state) \<Rightarrow> nat list \<Rightarrow> float_state
     \<Rightarrow> (error \<times> nat) + float_state" where
  "float_loop step [] s = Inr s"
| "float_loop step (i # is) s =
     (case step i s of Inl e \<Rightarrow> Inl e | Inr s' \<Rightarrow> float_loop step is s')"

record float_figure =
  ftrace_hits_x :: "pyfloat list"
  ftrace_hits_y :: "pyfloat list"
  ftrace_misses_x :: "pyfloat list"
  ftrace_misses_y :: "pyfloat list"
  fcircle_radius :: pyfloat
  fhit_probability :: real
  ftitle_percent :: real

text \<open>
  The whole function on floats: the figure or the exception, and the number of values
  taken from the random source.
\<close>

definition simulate_shots_float ::
  "config \<Rightarrow> (nat \<Rightarrow> real) \<Rightarrow> pyfloat \<Rightarrow> pyfloat \<Rightarrow> pyfloat \<Rightarrow> (error + float_figure) \<times> nat" where
  "simulate_shots_float cfg rng distance target_size moa =
     (let moa_radian = float_radians (float_div moa 60);
          target_radius = float_div target_size 2
      in case float_loop (float_shot_step cfg rng distance moa_radian target_radius)
                [0..<nat (simulation_shots cfg)] float_init_state of
           Inl (e, k) \<Rightarrow> (Inl e, k)
         | Inr s \<Rightarrow>
             if simulation_shots cfg = 0 then (Inl ZeroDivisionError, fdraws s)
             else
               (let p = of_int (fhits s) / of_int (simulation_shots cfg)
                in (Inr \<lparr>ftrace_hits_x = fhits_x s, ftrace_hits_y = fhits_y s,
                         ftrace_misses_x = fmisses_x s, ftrace_misses_y = fmisses_y s,
                         fcircle_radius = target_radius,
                         fhit_probability = p,
                         ftitle_percent = py_round (p * 100) 2\<rparr>,
                    fdraws s)))"

text \<open>A state and a figure of the exact model, read as values of the model on floats.\<close>

definition float_state_of :: "sim_state \<Rightarrow> float_state" where
  "float_state_of s =
     \<lparr>fdraws = draws s, fhits = hits s,
      fhits_x = map Finite (hits_x s), fhits_y = map Finite (hits_y s),
      fmisses_x = map Finite (misses_x s), fmisses_y = map Finite (misses_y s)\<rparr>"

definition float_figure_of :: "figure \<Rightarrow> float_figure" where
  "float_figure_of fig =
     \<lparr>ftrace_hits_x = map Finite (trace_hits_x fig),
      ftrace_hits_y = map Finite (trace_hits_y fig),
      ftrace_misses_x = map Finite (trace_misses_x fig),
      ftrace_misses_y = map Finite (trace_misses_y fig),
      fcircle_radius = Finite (circle_radius fig),
      fhit_probability = hit_probability fig,
      ftitle_percent = title_percent fig\<rparr>"

text \<open>The square of a coordinate of shot \<open>i\<close> is out of the range of a float.\<close>

definition square_overflows :: "(nat \<Rightarrow> real) \<Rightarrow> real \<Rightarrow> real \<Rightarrow> nat \<Rightarrow> bool" where
  "square_overflows rng distance moa i =
     (float_limit \<le> (fst (shot_at rng distance moa i))\<^sup>2 \<or>
      float_limit \<le> (snd (shot_at rng distance moa i))\<^sup>2)"

subsection \<open>Uniform draws on a grid\<close>

text \<open>
  A random source of resolution \<open>m\<close> returns the values \<open>k / m\<close> for \<open>k < m\<close>, each as
  likely as the others; \<^verbatim>\<open>random.random()\<close> has \<open>m = 2 ^ 53\<close>. The radius draws of a run
  of \<open>n\<close> shots are then a list of \<open>n\<close> numbers below \<open>m\<close>, and all these lists are equally
  likely. \<open>grid_rng\<close> is the sequence of drawn values with these radius draws and the
  angle draws \<open>v\<close>.
\<close>

definition draw_sequences :: "nat \<Rightarrow> nat \<Rightarrow> nat list set" where
  "draw_sequences m n = {w. length w = n \<and> set w \<subseteq> {..<m}}"

definition grid_rng :: "nat \<Rightarrow> nat list \<Rightarrow> (nat \<Rightarrow> real) \<Rightarrow> nat \<Rightarrow> real" where
  "grid_rng m w v j =
     (if even j
      then (if j div 2 < length w then real (w ! (j div 2)) / real m else 0)
      else v (j div 2))"

text \<open>The share of the grid values that are at most \<open>c\<close>.\<close>

definition grid_hit_probability :: "nat \<Rightarrow> real \<Rightarrow> real" where
  "grid_hit_probability m c = real (card {k. k < m \<and> real k / real m \<le> c}) / real m"

section \<open>The loop invariant\<close>

lemma shots_upto_Suc:
  "shots_upto rng distance moa (Suc k) =
     shots_upto rng distance moa k @ [shot_at rng distance moa k]"
  by (simp add: shots_upto_def)

lemma length_shots_upto: "length (shots_upto rng distance moa k) = k"
  by (simp add: shots_upto_def)

lemma min_Suc_cap:
  "min (Suc k) c = (if k < c then Suc (min k c) else min k c)"
  by auto

lemma shots_upto_min_Suc:
  "shots_upto rng distance moa (min (Suc k) c) =
     (if k < c then shots_upto rng distance moa (min k c) @ [shot_at rng distance moa k]
      else shots_upto rng distance moa (min k c))"
  by (simp add: min_Suc_cap shots_upto_Suc)

lemma shot_step_loop_state:
  "shot_step cfg rng distance (radians (moa / 60)) target_radius k
     (loop_state cfg rng distance moa target_radius k) =
   loop_state cfg rng distance moa target_radius (Suc k)"
proof -
  have cap: "int k < shots cfg \<longleftrightarrow> k < nat (shots cfg)" by linarith
  have sh: "draw_shot distance (radians (moa / 60)) (rng (2 * k)) (rng (Suc (2 * k)))
    = shot_at rng distance moa k" by (simp add: shot_at_def)
  show ?thesis
    by (simp add: loop_state_def shot_step_def Let_def cap sh shots_upto_Suc shots_upto_min_Suc)
qed

lemma loop_invariant:
  "fold (shot_step cfg rng distance (radians (moa / 60)) target_radius) [0..<k] init_state =
     loop_state cfg rng distance moa target_radius k"
proof (induction k)
  case 0
  show ?case by (simp add: init_state_def shots_upto_def loop_state_def)
next
  case (Suc k)
  then show ?case by (simp add: shot_step_loop_state)
qed

lemma run_loop_closed:
  "run_loop cfg rng distance (radians (moa / 60)) target_radius =
     loop_state cfg rng distance moa target_radius (nat (simulation_shots cfg))"
  by (simp add: run_loop_def loop_invariant)

lemma simulate_shots_closed:
  "simulate_shots cfg rng distance target_size moa =
     (if simulation_shots cfg = 0 then (Inl ZeroDivisionError, 0)
      else (Inr \<lparr>trace_hits_x = map fst (filter (on_target (target_size / 2))
                                  (displayed cfg rng distance moa)),
                 trace_hits_y = map snd (filter (on_target (target_size / 2))
                                  (displayed cfg rng distance moa)),
                 trace_misses_x = map fst (filter (\<lambda>p. \<not> on_target (target_size / 2) p)
                                  (displayed cfg rng distance moa)),
                 trace_misses_y = map snd (filter (\<lambda>p. \<not> on_target (target_size / 2) p)
                                  (displayed cfg rng distance moa)),
                 circle_radius = target_size / 2,
                 hit_probability =
                   real (hit_count rng distance target_size moa (nat (simulation_shots cfg)))
                     / of_int (simulation_shots cfg),
                 title_percent =
                   py_round (real (hit_count rng distance target_size moa
                                     (nat (simulation_shots cfg)))
                               / of_int (simulation_shots cfg) * 100) 2\<rparr>,
            2 * nat (simulation_shots cfg)))"
  by (simp add: simulate_shots_def Let_def run_loop_closed loop_state_def hit_count_def
      displayed_def)

lemma on_target_sqrt:
  "on_target target_radius (x, y) \<longleftrightarrow> sqrt (x\<^sup>2 + y\<^sup>2) \<le> target_radius"
  by (simp add: on_target_def powr_half_sqrt)

lemma draw_shot_norm:
  "(fst (draw_shot distance moa_radian u v))\<^sup>2 + (snd (draw_shot distance moa_radian u v))\<^sup>2
     = (uniform 0 (distance * sin (moa_radian / 2)) u)\<^sup>2"
proof -
  have "(r * cos a)\<^sup>2 + (r * sin a)\<^sup>2 = r\<^sup>2" for r a :: real
  proof -
    have "(r * cos a)\<^sup>2 + (r * sin a)\<^sup>2 = r\<^sup>2 * ((cos a)\<^sup>2 + (sin a)\<^sup>2)"
      by (simp only: power_mult_distrib distrib_left)
    also have "\<dots> = r\<^sup>2 * 1" by (simp only: sin_cos_squared_add2)
    finally show ?thesis by simp
  qed
  then show ?thesis by (simp add: draw_shot_def Let_def)
qed

lemma on_target_draw_shot:
  "on_target target_radius (draw_shot distance moa_radian u v) \<longleftrightarrow>
     \<bar>uniform 0 (distance * sin (moa_radian / 2)) u\<bar> \<le> target_radius"
proof -
  obtain x y where p: "draw_shot distance moa_radian u v = (x, y)"
    by (cases "draw_shot distance moa_radian u v")
  from draw_shot_norm [of distance moa_radian u v] p
  have "x\<^sup>2 + y\<^sup>2 = (uniform 0 (distance * sin (moa_radian / 2)) u)\<^sup>2" by simp
  then show ?thesis by (simp add: p on_target_sqrt)
qed

lemma on_target_shot_at:
  "on_target target_radius (shot_at rng distance moa i) \<longleftrightarrow>
     \<bar>max_radius distance moa * rng (2 * i)\<bar> \<le> target_radius"
  by (simp add: shot_at_def on_target_draw_shot max_radius_def uniform_def)

lemma py_round_hundredths: "py_round (of_int k / 100) 2 = of_int k / 100"
  by (simp add: py_round_def Let_def)

lemma filter_all: "(\<forall>i<k. P (f i)) \<Longrightarrow> filter P (map f [0..<k]) = map f [0..<k]"
  by (simp add: filter_True)

lemma hit_count_le: "hit_count rng distance target_size moa k \<le> k"
proof -
  have "hit_count rng distance target_size moa k \<le> length (shots_upto rng distance moa k)"
    unfolding hit_count_def by (rule length_filter_le)
  then show ?thesis by (simp add: length_shots_upto)
qed

lemma hit_count_all:
  "(\<forall>i<k. on_target (target_size / 2) (shot_at rng distance moa i)) \<Longrightarrow>
     hit_count rng distance target_size moa k = k"
  by (simp add: hit_count_def shots_upto_def)

lemma hit_count_none:
  "(\<forall>i<k. \<not> on_target (target_size / 2) (shot_at rng distance moa i)) \<Longrightarrow>
     hit_count rng distance target_size moa k = 0"
  by (simp add: hit_count_def shots_upto_def)

lemma hit_count_card:
  "hit_count rng distance target_size moa k =
     card {i. i < k \<and> on_target (target_size / 2) (shot_at rng distance moa i)}"
proof -
  have "{i. i < k \<and> on_target (target_size / 2) (map (shot_at rng distance moa) [0..<k] ! i)}
      = {i. i < k \<and> on_target (target_size / 2) (shot_at rng distance moa i)}"
    by auto
  then show ?thesis
    by (simp add: hit_count_def shots_upto_def length_filter_conv_card)
qed

section \<open>The hit probability\<close>

text \<open>
  Claim C1. A run of \<open>simulation_shots\<close> shots, at least one, returns a figure whose hit
  probability is the number of shots that pass the test of line 60 divided by
  \<open>simulation_shots\<close>. It is 0 when no shot passes, 1 when every shot passes, and it lies
  between 0 and 1. With the 10000 shots of the module the number in the title, rounded to
  two digits, is exactly that probability in percent.
\<close>

theorem hit_probability_is_hit_fraction:
  assumes "0 < simulation_shots cfg"
  shows "\<exists>fig. fst (simulate_shots cfg rng distance target_size moa) = Inr fig \<and>
           hit_probability fig =
             real (hit_count rng distance target_size moa (nat (simulation_shots cfg)))
               / of_int (simulation_shots cfg) \<and>
           ((\<forall>i < nat (simulation_shots cfg).
               \<not> on_target (target_size / 2) (shot_at rng distance moa i))
              \<longrightarrow> hit_probability fig = 0) \<and>
           ((\<forall>i < nat (simulation_shots cfg).
               on_target (target_size / 2) (shot_at rng distance moa i))
              \<longrightarrow> hit_probability fig = 1) \<and>
           0 \<le> hit_probability fig \<and> hit_probability fig \<le> 1 \<and>
           (simulation_shots cfg = 10000 \<longrightarrow> title_percent fig = 100 * hit_probability fig)"
proof -
  let ?n = "simulation_shots cfg"
  let ?h = "hit_count rng distance target_size moa (nat ?n)"
  let ?p = "real ?h / of_int ?n"
  have pos: "0 < real_of_int ?n" using assms by simp
  have "int ?h \<le> ?n"
    using hit_count_le [of rng distance target_size moa "nat ?n"] assms by linarith
  then have le: "real ?h \<le> real_of_int ?n"
    by (metis of_int_le_iff of_int_of_nat_eq)
  have p0: "0 \<le> ?p" using assms by simp
  have p1: "?p \<le> 1" using le pos by (simp add: divide_le_eq_1)
  have none: "?p = 0"
    if "\<forall>i < nat ?n. \<not> on_target (target_size / 2) (shot_at rng distance moa i)"
    using hit_count_none [OF that] by simp
  have all: "?p = 1"
    if "\<forall>i < nat ?n. on_target (target_size / 2) (shot_at rng distance moa i)"
  proof -
    have "int ?h = ?n" using hit_count_all [OF that] assms by simp
    then have "real ?h = real_of_int ?n" by (metis of_int_of_nat_eq)
    then show ?thesis using pos by simp
  qed
  have title: "py_round (?p * 100) 2 = 100 * ?p" if "?n = 10000"
  proof -
    have n': "real_of_int ?n = 10000" using that by simp
    have e: "?p * 100 = of_int (int ?h) / 100" by (simp add: n')
    have "py_round (?p * 100) 2 = of_int (int ?h) / 100"
      by (simp only: e py_round_hundredths)
    also have "\<dots> = 100 * ?p" by (simp add: n')
    finally show ?thesis .
  qed
  from assms have "?n \<noteq> 0" by simp
  then have "\<exists>fig. fst (simulate_shots cfg rng distance target_size moa) = Inr fig \<and>
      hit_probability fig = ?p \<and> title_percent fig = py_round (?p * 100) 2"
    by (simp add: simulate_shots_closed)
  then obtain fig where fig: "fst (simulate_shots cfg rng distance target_size moa) = Inr fig"
    and hp: "hit_probability fig = ?p" and tp: "title_percent fig = py_round (?p * 100) 2"
    by blast
  show ?thesis
  proof (intro exI [of _ fig] conjI impI)
    show "fst (simulate_shots cfg rng distance target_size moa) = Inr fig" by (rule fig)
    show "hit_probability fig = ?p" by (rule hp)
    show "hit_probability fig = 0"
      if "\<forall>i < nat ?n. \<not> on_target (target_size / 2) (shot_at rng distance moa i)"
      using none [OF that] hp by simp
    show "hit_probability fig = 1"
      if "\<forall>i < nat ?n. on_target (target_size / 2) (shot_at rng distance moa i)"
      using all [OF that] hp by simp
    show "0 \<le> hit_probability fig" using p0 hp by simp
    show "hit_probability fig \<le> 1" using p1 hp by simp
    show "title_percent fig = 100 * hit_probability fig" if "?n = 10000"
      using title [OF that] hp tp by simp
  qed
qed

theorem hit_probability_is_hit_fraction_witness:
  "0 < simulation_shots module_config \<and>
   (\<exists>fig. fst (simulate_shots module_config (\<lambda>_. 1 / 2) 1000 (3 / 10) 0) = Inr fig \<and>
      hit_probability fig = 1 \<and> title_percent fig = 100) \<and>
   (\<exists>fig. fst (simulate_shots module_config (\<lambda>_. 1 / 2) 1000 (3 / 10) 10800) = Inr fig \<and>
      hit_probability fig = 0 \<and> title_percent fig = 0)"
proof -
  have h: "0 < simulation_shots module_config" by (simp add: module_config_def)
  have n: "simulation_shots module_config = 10000" by (simp add: module_config_def)
  have every: "\<forall>i < nat (simulation_shots module_config).
      on_target ((3 / 10) / 2) (shot_at (\<lambda>_. 1 / 2) 1000 0 i)"
    by (simp add: on_target_shot_at max_radius_def radians_def)
  have none: "\<forall>i < nat (simulation_shots module_config).
      \<not> on_target ((3 / 10) / 2) (shot_at (\<lambda>_. 1 / 2) 1000 10800 i)"
    by (simp add: on_target_shot_at max_radius_def radians_def)
  from hit_probability_is_hit_fraction [OF h, of "\<lambda>_. 1 / 2" 1000 "3 / 10" 0] every n
  have a: "\<exists>fig. fst (simulate_shots module_config (\<lambda>_. 1 / 2) 1000 (3 / 10) 0) = Inr fig \<and>
      hit_probability fig = 1 \<and> title_percent fig = 100"
    by auto
  from hit_probability_is_hit_fraction [OF h, of "\<lambda>_. 1 / 2" 1000 "3 / 10" 10800] none n
  have b: "\<exists>fig. fst (simulate_shots module_config (\<lambda>_. 1 / 2) 1000 (3 / 10) 10800) = Inr fig \<and>
      hit_probability fig = 0 \<and> title_percent fig = 0"
    by auto
  from h a b show ?thesis by blast
qed

section \<open>The hit test\<close>

text \<open>
  Claim C3. A shot \<open>(x, y)\<close> passes the test of the loop if and only if
  \<open>sqrt (x\<^sup>2 + y\<^sup>2)\<close> is at most half the target diameter; a shot at exactly that
  distance passes. The hits a run counts are the shots within that distance.
\<close>

theorem hit_iff_within_target_radius:
  "(on_target (target_size / 2) (x, y) \<longleftrightarrow> sqrt (x\<^sup>2 + y\<^sup>2) \<le> target_size / 2) \<and>
   (sqrt (x\<^sup>2 + y\<^sup>2) = target_size / 2 \<longrightarrow> on_target (target_size / 2) (x, y)) \<and>
   (simulation_shots cfg \<noteq> 0 \<longrightarrow>
      (\<exists>fig. fst (simulate_shots cfg rng distance target_size moa) = Inr fig \<and>
         hit_probability fig * of_int (simulation_shots cfg) =
           real (card {i. i < nat (simulation_shots cfg) \<and>
                   sqrt ((fst (shot_at rng distance moa i))\<^sup>2 +
                         (snd (shot_at rng distance moa i))\<^sup>2) \<le> target_size / 2})))"
proof -
  have a: "on_target (target_size / 2) (x, y) \<longleftrightarrow> sqrt (x\<^sup>2 + y\<^sup>2) \<le> target_size / 2"
    by (rule on_target_sqrt)
  have b: "on_target (target_size / 2) p \<longleftrightarrow> sqrt ((fst p)\<^sup>2 + (snd p)\<^sup>2) \<le> target_size / 2"
    for p using on_target_sqrt [of "target_size / 2" "fst p" "snd p"] by simp
  have c: "hit_count rng distance target_size moa k =
      card {i. i < k \<and> sqrt ((fst (shot_at rng distance moa i))\<^sup>2 +
                         (snd (shot_at rng distance moa i))\<^sup>2) \<le> target_size / 2}" for k
    by (simp add: hit_count_card b)
  show ?thesis using a by (simp add: simulate_shots_closed c)
qed

theorem hit_iff_within_target_radius_witness:
  "sqrt (3\<^sup>2 + 4\<^sup>2) = 10 / 2 \<and> on_target (10 / 2) (3, 4) \<and>
   simulation_shots module_config \<noteq> 0 \<and>
   (\<exists>fig. fst (simulate_shots module_config (\<lambda>_. 1 / 2) 1000 10 4) = Inr fig \<and>
      hit_probability fig * of_int (simulation_shots module_config) =
        real (card {i. i < nat (simulation_shots module_config) \<and>
                sqrt ((fst (shot_at (\<lambda>_. 1 / 2) 1000 4 i))\<^sup>2 +
                      (snd (shot_at (\<lambda>_. 1 / 2) 1000 4 i))\<^sup>2) \<le> 10 / 2}))"
proof -
  have s: "sqrt (3\<^sup>2 + 4\<^sup>2) = 10 / 2" by simp
  have n: "simulation_shots module_config \<noteq> 0" by (simp add: module_config_def)
  from hit_iff_within_target_radius [of 10 3 4 module_config "\<lambda>_. 1 / 2" 1000 4] s n
  show ?thesis by blast
qed

section \<open>The displayed points\<close>

text \<open>
  Claim C4. The two traces of the figure hold \<open>min simulation_shots shots\<close> points
  together: the first shots of the run, in the order drawn, the hits in one trace and the
  misses in the other.
\<close>

theorem displayed_points_are_first_shots:
  assumes "0 < simulation_shots cfg" and "0 \<le> shots cfg"
  shows "\<exists>fig. fst (simulate_shots cfg rng distance target_size moa) = Inr fig \<and>
           int (length (trace_hits_x fig) + length (trace_misses_x fig)) =
             min (simulation_shots cfg) (shots cfg) \<and>
           length (trace_hits_y fig) = length (trace_hits_x fig) \<and>
           length (trace_misses_y fig) = length (trace_misses_x fig) \<and>
           zip (trace_hits_x fig) (trace_hits_y fig) =
             filter (on_target (target_size / 2))
               (map (shot_at rng distance moa)
                  [0..<nat (min (simulation_shots cfg) (shots cfg))]) \<and>
           zip (trace_misses_x fig) (trace_misses_y fig) =
             filter (\<lambda>p. \<not> on_target (target_size / 2) p)
               (map (shot_at rng distance moa)
                  [0..<nat (min (simulation_shots cfg) (shots cfg))])"
proof -
  let ?k = "nat (min (simulation_shots cfg) (shots cfg))"
  let ?xs = "map (shot_at rng distance moa) [0..<?k]"
  let ?P = "on_target (target_size / 2)"
  have k: "min (nat (simulation_shots cfg)) (nat (shots cfg)) = ?k"
    using assms by (simp add: min_def)
  have d: "displayed cfg rng distance moa = ?xs"
    by (simp only: displayed_def shots_upto_def k)
  from assms have "simulation_shots cfg \<noteq> 0" by simp
  then have "\<exists>fig. fst (simulate_shots cfg rng distance target_size moa) = Inr fig \<and>
      trace_hits_x fig = map fst (filter ?P ?xs) \<and>
      trace_hits_y fig = map snd (filter ?P ?xs) \<and>
      trace_misses_x fig = map fst (filter (\<lambda>p. \<not> ?P p) ?xs) \<and>
      trace_misses_y fig = map snd (filter (\<lambda>p. \<not> ?P p) ?xs)"
    by (simp add: simulate_shots_closed d)
  then obtain fig where fig: "fst (simulate_shots cfg rng distance target_size moa) = Inr fig"
    and hx: "trace_hits_x fig = map fst (filter ?P ?xs)"
    and hy: "trace_hits_y fig = map snd (filter ?P ?xs)"
    and mx: "trace_misses_x fig = map fst (filter (\<lambda>p. \<not> ?P p) ?xs)"
    and my: "trace_misses_y fig = map snd (filter (\<lambda>p. \<not> ?P p) ?xs)"
    by blast
  have "length (filter ?P ?xs) + length (filter (\<lambda>p. \<not> ?P p) ?xs) = length ?xs"
    by (rule sum_length_filter_compl)
  then have len: "length (trace_hits_x fig) + length (trace_misses_x fig) = ?k"
    by (simp only: hx mx length_map length_upt diff_zero)
  have int_k: "int ?k = min (simulation_shots cfg) (shots cfg)"
    using assms by simp
  show ?thesis
  proof (intro exI [of _ fig] conjI)
    show "fst (simulate_shots cfg rng distance target_size moa) = Inr fig" by (rule fig)
    show "int (length (trace_hits_x fig) + length (trace_misses_x fig)) =
        min (simulation_shots cfg) (shots cfg)"
      by (simp only: len int_k)
    show "length (trace_hits_y fig) = length (trace_hits_x fig)"
      by (simp only: hx hy length_map)
    show "length (trace_misses_y fig) = length (trace_misses_x fig)"
      by (simp only: mx my length_map)
    show "zip (trace_hits_x fig) (trace_hits_y fig) = filter ?P ?xs"
      by (simp only: hx hy zip_map_fst_snd)
    show "zip (trace_misses_x fig) (trace_misses_y fig) = filter (\<lambda>p. \<not> ?P p) ?xs"
      by (simp only: mx my zip_map_fst_snd)
  qed
qed

theorem displayed_points_are_first_shots_witness:
  "0 < simulation_shots module_config \<and> 0 \<le> shots module_config \<and>
   (\<exists>fig. fst (simulate_shots module_config (\<lambda>_. 1 / 2) 1000 (3 / 10) 4) = Inr fig \<and>
      int (length (trace_hits_x fig) + length (trace_misses_x fig)) = 100 \<and>
      zip (trace_hits_x fig) (trace_hits_y fig) =
        filter (on_target ((3 / 10) / 2)) (map (shot_at (\<lambda>_. 1 / 2) 1000 4) [0..<100]))"
proof -
  have h: "0 < simulation_shots module_config" "0 \<le> shots module_config"
    by (simp_all add: module_config_def)
  have m: "min (simulation_shots module_config) (shots module_config) = 100"
    by (simp add: module_config_def)
  from displayed_points_are_first_shots [OF h, of "\<lambda>_. 1 / 2" 1000 "3 / 10" 4] h
  show ?thesis unfolding m by auto
qed

section \<open>Determinism\<close>

lemma shots_upto_cong:
  assumes "\<forall>j < 2 * k. rng j = rng' j"
  shows "shots_upto rng distance moa k = shots_upto rng' distance moa k"
  using assms by (simp add: shots_upto_def shot_at_def)

text \<open>
  Claim C9. Two runs with the same parameters and the same sequence of drawn values give
  the same result: the same hit probability, the same traces, the same title. It is enough
  that the two sequences agree on the values the run takes, two for each shot.
\<close>

theorem same_draws_same_result:
  assumes "\<forall>j < 2 * nat (simulation_shots cfg). rng j = rng' j"
  shows "simulate_shots cfg rng distance target_size moa =
         simulate_shots cfg rng' distance target_size moa"
proof -
  let ?n = "nat (simulation_shots cfg)"
  have a: "shots_upto rng distance moa ?n = shots_upto rng' distance moa ?n"
    using assms by (rule shots_upto_cong)
  have "\<forall>j < 2 * min ?n (nat (shots cfg)). rng j = rng' j"
    using assms by simp
  then have b: "shots_upto rng distance moa (min ?n (nat (shots cfg))) =
      shots_upto rng' distance moa (min ?n (nat (shots cfg)))"
    by (rule shots_upto_cong)
  show ?thesis
    by (simp add: simulate_shots_closed hit_count_def displayed_def a b)
qed

theorem same_draws_same_result_witness:
  "simulate_shots module_config (\<lambda>_. 1 / 2) 1000 (3 / 10) 4 =
   simulate_shots module_config (\<lambda>j. if j < 20000 then 1 / 2 else 0) 1000 (3 / 10) 4"
proof -
  have "\<forall>j < 2 * nat (simulation_shots module_config).
      (\<lambda>_. 1 / 2 :: real) j = (\<lambda>j. if j < 20000 then 1 / 2 else 0) j"
    by (simp add: module_config_def)
  then show ?thesis by (rule same_draws_same_result)
qed

section \<open>The sampling of a shot\<close>



section \<open>The degenerate cone\<close>

text \<open>
  Claim C6. With a dispersion of 0 or a distance of 0 the radius of the cone is 0, the
  draw between 0 and 0 gives 0, every shot lands at the origin, and the origin passes the
  hit test for every target diameter that is positive or 0: the hit probability is 1.
\<close>

theorem degenerate_cone_always_hits:
  assumes "moa = 0 \<or> distance = 0" and "0 \<le> target_size" and "0 < simulation_shots cfg"
  shows "max_radius distance moa = 0 \<and>
         uniform 0 (max_radius distance moa) u = 0 \<and>
         (\<forall>i. shot_at rng distance moa i = (0, 0)) \<and>
         (\<forall>i. on_target (target_size / 2) (shot_at rng distance moa i)) \<and>
         (\<exists>fig. fst (simulate_shots cfg rng distance target_size moa) = Inr fig \<and>
            hit_probability fig = 1)"
proof -
  have m: "max_radius distance moa = 0"
    using assms(1) by (auto simp add: max_radius_def radians_def)
  have u: "uniform 0 (max_radius distance moa) u = 0"
    by (simp add: m uniform_def)
  have z: "distance * sin (radians (moa / 60) / 2) = 0"
    using m by (simp only: max_radius_def)
  have s: "shot_at rng distance moa i = (0, 0)" for i
    by (simp add: shot_at_def draw_shot_def Let_def uniform_def z)
  have t: "on_target (target_size / 2) (shot_at rng distance moa i)" for i
    using assms(2) by (simp add: s on_target_def)
  have "hit_count rng distance target_size moa (nat (simulation_shots cfg)) =
      nat (simulation_shots cfg)"
    by (rule hit_count_all) (simp add: t)
  then have "real (hit_count rng distance target_size moa (nat (simulation_shots cfg))) /
      real_of_int (simulation_shots cfg) = 1"
    using assms(3) by simp
  then have "\<exists>fig. fst (simulate_shots cfg rng distance target_size moa) = Inr fig \<and>
            hit_probability fig = 1"
    using assms(3) by (simp add: simulate_shots_closed)
  with m u s t show ?thesis by blast
qed

theorem degenerate_cone_always_hits_witness:
  "((0::real) = 0 \<or> (1000::real) = 0) \<and> (0::real) \<le> 3 / 10 \<and>
   0 < simulation_shots module_config \<and>
   max_radius 1000 0 = 0 \<and> shot_at (\<lambda>_. 1 / 2) 1000 0 7 = (0, 0) \<and>
   (\<exists>fig. fst (simulate_shots module_config (\<lambda>_. 1 / 2) 1000 (3 / 10) 0) = Inr fig \<and>
      hit_probability fig = 1) \<and>
   (\<exists>fig. fst (simulate_shots module_config (\<lambda>_. 1 / 2) 0 0 4) = Inr fig \<and>
      hit_probability fig = 1)"
proof -
  have n: "0 < simulation_shots module_config" by (simp add: module_config_def)
  have a: "(0::real) = 0 \<or> (1000::real) = 0" by simp
  have b: "(4::real) = 0 \<or> (0::real) = 0" by simp
  have t: "(0::real) \<le> 3 / 10" by simp
  from degenerate_cone_always_hits [OF a t n, of "1 / 2" "\<lambda>_. 1 / 2"]
       degenerate_cone_always_hits [OF b order_refl n, of "1 / 2" "\<lambda>_. 1 / 2"] n
  show ?thesis by simp
qed

section \<open>The angle plays no part in the hit test\<close>

lemma hit_count_radius_draws:
  assumes "\<forall>i < k. rng' (2 * i) = rng (2 * i)"
  shows "hit_count rng' distance target_size moa k = hit_count rng distance target_size moa k"
proof -
  have "{i. i < k \<and> on_target (target_size / 2) (shot_at rng' distance moa i)} =
        {i. i < k \<and> on_target (target_size / 2) (shot_at rng distance moa i)}"
    using assms by (auto simp add: on_target_shot_at)
  then show ?thesis by (simp only: hit_count_card)
qed

lemma hits_run_loop:
  "hits (run_loop cfg rng distance (radians (moa / 60)) (target_size / 2)) =
     int (hit_count rng distance target_size moa (nat (simulation_shots cfg)))"
  by (simp add: run_loop_closed loop_state_def hit_count_def)

text \<open>
  Claim C10. The squares of the two coordinates of a shot add up to the square of the drawn
  radius, so the shot passes the hit test if and only if the absolute value of the radius
  is at most the target radius, and, the radius being non-negative, if and only if the
  radius is at most the target radius. The value drawn for the angle does not matter:
  two runs that draw the same radii count the same number of hits.
\<close>

theorem hit_depends_on_radius_only:
  "(fst (draw_shot distance moa_radian u v))\<^sup>2 + (snd (draw_shot distance moa_radian u v))\<^sup>2 =
     (uniform 0 (distance * sin (moa_radian / 2)) u)\<^sup>2 \<and>
   (on_target target_radius (draw_shot distance moa_radian u v) \<longleftrightarrow>
      \<bar>uniform 0 (distance * sin (moa_radian / 2)) u\<bar> \<le> target_radius) \<and>
   (0 \<le> uniform 0 (distance * sin (moa_radian / 2)) u \<longrightarrow>
      (on_target target_radius (draw_shot distance moa_radian u v) \<longleftrightarrow>
         uniform 0 (distance * sin (moa_radian / 2)) u \<le> target_radius)) \<and>
   (on_target target_radius (draw_shot distance moa_radian u v) \<longleftrightarrow>
      on_target target_radius (draw_shot distance moa_radian u v')) \<and>
   ((\<forall>i < nat (simulation_shots cfg). rng' (2 * i) = rng (2 * i)) \<longrightarrow>
      hits (run_loop cfg rng' distance (radians (moa / 60)) (target_size / 2)) =
      hits (run_loop cfg rng distance (radians (moa / 60)) (target_size / 2)))"
proof (intro conjI impI)
  show "(fst (draw_shot distance moa_radian u v))\<^sup>2 + (snd (draw_shot distance moa_radian u v))\<^sup>2 =
     (uniform 0 (distance * sin (moa_radian / 2)) u)\<^sup>2"
    by (rule draw_shot_norm)
  show "on_target target_radius (draw_shot distance moa_radian u v) \<longleftrightarrow>
      \<bar>uniform 0 (distance * sin (moa_radian / 2)) u\<bar> \<le> target_radius"
    by (rule on_target_draw_shot)
  show "on_target target_radius (draw_shot distance moa_radian u v) \<longleftrightarrow>
         uniform 0 (distance * sin (moa_radian / 2)) u \<le> target_radius"
    if "0 \<le> uniform 0 (distance * sin (moa_radian / 2)) u"
    using that by (simp add: on_target_draw_shot)
  show "on_target target_radius (draw_shot distance moa_radian u v) \<longleftrightarrow>
      on_target target_radius (draw_shot distance moa_radian u v')"
    by (simp only: on_target_draw_shot)
  show "hits (run_loop cfg rng' distance (radians (moa / 60)) (target_size / 2)) =
      hits (run_loop cfg rng distance (radians (moa / 60)) (target_size / 2))"
    if "\<forall>i < nat (simulation_shots cfg). rng' (2 * i) = rng (2 * i)"
    using hit_count_radius_draws [OF that] by (simp only: hits_run_loop)
qed

theorem hit_depends_on_radius_only_witness:
  "0 \<le> uniform 0 (1000 * sin (pi / 2)) (1 / 2) \<and>
   \<not> uniform 0 (1000 * sin (pi / 2)) (1 / 2) \<le> 3 / 20 \<and>
   \<not> on_target (3 / 20) (draw_shot 1000 pi (1 / 2) (1 / 4)) \<and>
   hits (run_loop module_config (\<lambda>j. if even j then 1 / 2 else 1 / 4) 1000
           (radians (4 / 60)) ((3 / 10) / 2)) =
   hits (run_loop module_config (\<lambda>_. 1 / 2) 1000 (radians (4 / 60)) ((3 / 10) / 2))"
proof -
  have r: "uniform 0 (1000 * sin (pi / 2)) (1 / 2) = 500" by (simp add: uniform_def)
  have d: "\<forall>i < nat (simulation_shots module_config).
      (\<lambda>j. if even j then 1 / 2 else 1 / 4 :: real) (2 * i) = (\<lambda>_. 1 / 2) (2 * i)"
    by simp
  from hit_depends_on_radius_only [of 1000 pi "1 / 2" "1 / 4" "3 / 20" "0" module_config
      "\<lambda>j. if even j then 1 / 2 else 1 / 4" "\<lambda>_. 1 / 2" 4 "3 / 10"] d
  show ?thesis unfolding r by simp
qed

section \<open>Monotony of the hit probability\<close>

lemma simulate_shots_hit_probability:
  assumes "simulation_shots cfg \<noteq> 0"
  shows "\<exists>fig. fst (simulate_shots cfg rng distance target_size moa) = Inr fig \<and>
           hit_probability fig =
             real (hit_count rng distance target_size moa (nat (simulation_shots cfg)))
               / of_int (simulation_shots cfg)"
  using assms by (simp add: simulate_shots_closed)

lemma projr_hit_probability:
  assumes "simulation_shots cfg \<noteq> 0"
  shows "hit_probability (projr (fst (simulate_shots cfg rng distance target_size moa))) =
           real (hit_count rng distance target_size moa (nat (simulation_shots cfg)))
             / of_int (simulation_shots cfg)"
  using assms by (simp add: simulate_shots_closed)

lemma hit_count_mono:
  assumes "\<forall>i < k. on_target (t / 2) (shot_at rng d m i) \<longrightarrow>
                   on_target (t' / 2) (shot_at rng d' m' i)"
  shows "hit_count rng d t m k \<le> hit_count rng d' t' m' k"
proof -
  have "{i. i < k \<and> on_target (t / 2) (shot_at rng d m i)} \<subseteq>
        {i. i < k \<and> on_target (t' / 2) (shot_at rng d' m' i)}"
    using assms by blast
  moreover have "finite {i. i < k \<and> on_target (t' / 2) (shot_at rng d' m' i)}"
    by simp
  ultimately show ?thesis
    by (simp only: hit_count_card card_mono)
qed

lemma max_radius_abs_mono:
  assumes "0 \<le> moa" and "moa \<le> moa'" and "moa' \<le> 10800"
  shows "\<bar>max_radius distance moa\<bar> \<le> \<bar>max_radius distance moa'\<bar>"
proof -
  let ?a = "radians (moa / 60) / 2"
  let ?b = "radians (moa' / 60) / 2"
  have a0: "0 \<le> ?a" using assms(1) by (simp add: radians_def)
  have ab: "?a \<le> ?b" using assms(2) by (simp add: radians_def)
  have "moa' * pi \<le> 10800 * pi" using assms(3) by (intro mult_right_mono) simp_all
  then have b: "?b \<le> pi / 2" by (simp add: radians_def)
  have "- (pi / 2) \<le> ?a" using a0 pi_ge_zero by linarith
  then have s: "sin ?a \<le> sin ?b" using ab b by (rule sin_monotone_2pi_le)
  have "?a \<le> pi" using ab b pi_ge_zero by linarith
  then have sa: "0 \<le> sin ?a" using a0 by (intro sin_ge_zero)
  have sb: "0 \<le> sin ?b" using sa s by linarith
  have "\<bar>distance\<bar> * sin ?a \<le> \<bar>distance\<bar> * sin ?b"
    using s by (intro mult_left_mono) simp_all
  then show ?thesis using sa sb by (simp add: max_radius_def abs_mult)
qed

text \<open>
  Claim C7, amended. For a fixed sequence of drawn values and at least one shot: with
  distance and target diameter fixed, a larger dispersion does not give a larger hit
  probability as long as both dispersions lie between 0 and 10800 minutes of angle, where
  the half angle of the cone is at most a quarter turn and its sine grows; with
  dispersion and distance fixed, a larger target diameter does not give a smaller hit
  probability.
\<close>

theorem hit_probability_monotone:
  assumes "0 < simulation_shots cfg"
  shows "(0 \<le> moa \<and> moa \<le> moa' \<and> moa' \<le> 10800 \<longrightarrow>
            (\<exists>fig fig'. fst (simulate_shots cfg rng distance target_size moa) = Inr fig \<and>
               fst (simulate_shots cfg rng distance target_size moa') = Inr fig' \<and>
               hit_probability fig' \<le> hit_probability fig)) \<and>
         (target_size \<le> target_size' \<longrightarrow>
            (\<exists>fig fig'. fst (simulate_shots cfg rng distance target_size moa) = Inr fig \<and>
               fst (simulate_shots cfg rng distance target_size' moa) = Inr fig' \<and>
               hit_probability fig \<le> hit_probability fig'))"
proof (intro conjI impI)
  let ?n = "simulation_shots cfg"
  from assms have n0: "?n \<noteq> 0" and pos: "0 < real_of_int ?n" by simp_all
  have frac: "real a / real_of_int ?n \<le> real b / real_of_int ?n" if "a \<le> b" for a b :: nat
    using that pos by (simp add: divide_right_mono)
  {
    assume h: "0 \<le> moa \<and> moa \<le> moa' \<and> moa' \<le> 10800"
    then have R: "\<bar>max_radius distance moa\<bar> \<le> \<bar>max_radius distance moa'\<bar>"
      by (intro max_radius_abs_mono) simp_all
    have "on_target (target_size / 2) (shot_at rng distance moa i)"
      if "on_target (target_size / 2) (shot_at rng distance moa' i)" for i
    proof -
      have "\<bar>max_radius distance moa\<bar> * \<bar>rng (2 * i)\<bar> \<le>
            \<bar>max_radius distance moa'\<bar> * \<bar>rng (2 * i)\<bar>"
        using R by (intro mult_right_mono) simp_all
      then show ?thesis using that by (simp add: on_target_shot_at abs_mult)
    qed
    then have "hit_count rng distance target_size moa' (nat ?n) \<le>
        hit_count rng distance target_size moa (nat ?n)"
      by (intro hit_count_mono) blast
    from frac [OF this]
      simulate_shots_hit_probability [OF n0, of rng distance target_size moa]
      simulate_shots_hit_probability [OF n0, of rng distance target_size moa']
    show "\<exists>fig fig'. fst (simulate_shots cfg rng distance target_size moa) = Inr fig \<and>
               fst (simulate_shots cfg rng distance target_size moa') = Inr fig' \<and>
               hit_probability fig' \<le> hit_probability fig"
      by (elim exE conjE) simp
  }
  {
    assume h: "target_size \<le> target_size'"
    have "on_target (target_size' / 2) (shot_at rng distance moa i)"
      if "on_target (target_size / 2) (shot_at rng distance moa i)" for i
      using that h by (simp add: on_target_shot_at)
    then have "hit_count rng distance target_size moa (nat ?n) \<le>
        hit_count rng distance target_size' moa (nat ?n)"
      by (intro hit_count_mono) blast
    from frac [OF this]
      simulate_shots_hit_probability [OF n0, of rng distance target_size moa]
      simulate_shots_hit_probability [OF n0, of rng distance target_size' moa]
    show "\<exists>fig fig'. fst (simulate_shots cfg rng distance target_size moa) = Inr fig \<and>
               fst (simulate_shots cfg rng distance target_size' moa) = Inr fig' \<and>
               hit_probability fig \<le> hit_probability fig'"
      by (elim exE conjE) simp
  }
qed

theorem hit_probability_monotone_witness:
  "0 < simulation_shots module_config \<and>
   (\<exists>fig fig'. fst (simulate_shots module_config (\<lambda>_. 1 / 2) 1000 (3 / 10) 2) = Inr fig \<and>
      fst (simulate_shots module_config (\<lambda>_. 1 / 2) 1000 (3 / 10) 4) = Inr fig' \<and>
      hit_probability fig' \<le> hit_probability fig) \<and>
   (\<exists>fig fig'. fst (simulate_shots module_config (\<lambda>_. 1 / 2) 1000 (3 / 10) 2) = Inr fig \<and>
      fst (simulate_shots module_config (\<lambda>_. 1 / 2) 1000 (5 / 10) 2) = Inr fig' \<and>
      hit_probability fig \<le> hit_probability fig')"
proof -
  have n: "0 < simulation_shots module_config" by (simp add: module_config_def)
  have a: "(0::real) \<le> 2 \<and> (2::real) \<le> 4 \<and> (4::real) \<le> 10800" by simp
  have b: "(3 / 10 :: real) \<le> 5 / 10" by simp
  from hit_probability_monotone [OF n, of 2 4 "\<lambda>_. 1 / 2" 1000 "3 / 10" "5 / 10"] a b n
  show ?thesis by blast
qed

text \<open>
  Claim C7 as stated, for every dispersion, fails. With every drawn value equal to
  \<open>1 / 2\<close>, a distance of 1000 and a target diameter of \<open>3 / 10\<close>, the dispersion 10800
  gives the cone radius 1000 and no hit, and the larger dispersion 21600 gives
  \<open>sin pi = 0\<close>, the cone radius 0 and only hits.
\<close>

theorem dispersion_beyond_half_turn_counterexample:
  "(10800::real) \<le> 21600 \<and>
   hit_probability (projr (fst (simulate_shots module_config (\<lambda>_. 1 / 2) 1000 (3 / 10) 10800))) = 0 \<and>
   hit_probability (projr (fst (simulate_shots module_config (\<lambda>_. 1 / 2) 1000 (3 / 10) 21600))) = 1 \<and>
   \<not> hit_probability (projr (fst (simulate_shots module_config (\<lambda>_. 1 / 2) 1000 (3 / 10) 21600)))
      \<le> hit_probability (projr (fst (simulate_shots module_config (\<lambda>_. 1 / 2) 1000 (3 / 10) 10800)))"
proof -
  have n: "simulation_shots module_config \<noteq> 0" "nat (simulation_shots module_config) = 10000"
    "real_of_int (simulation_shots module_config) = 10000"
    by (simp_all add: module_config_def)
  have "hit_count (\<lambda>_. 1 / 2) 1000 (3 / 10) 10800 10000 = 0"
    by (rule hit_count_none) (simp add: on_target_shot_at max_radius_def radians_def)
  then have a: "hit_probability (projr (fst (simulate_shots module_config (\<lambda>_. 1 / 2) 1000
      (3 / 10) 10800))) = 0"
    by (simp add: projr_hit_probability [OF n(1)] n)
  have "hit_count (\<lambda>_. 1 / 2) 1000 (3 / 10) 21600 10000 = 10000"
    by (rule hit_count_all) (simp add: on_target_shot_at max_radius_def radians_def)
  then have b: "hit_probability (projr (fst (simulate_shots module_config (\<lambda>_. 1 / 2) 1000
      (3 / 10) 21600))) = 1"
    by (simp add: projr_hit_probability [OF n(1)] n)
  show ?thesis by (simp add: a b)
qed

section \<open>The model on floats\<close>

subsection \<open>Values that stay in the range of a float\<close>

lemma float_limit_ge_8: "8 \<le> float_limit"
proof -
  have "(2::real) ^ 970 * 2 \<le> 2 ^ 970 * 2 ^ 54" by (intro mult_left_mono) simp_all
  then have a: "(2::real) ^ 970 * 2 \<le> 2 ^ 1024" by (simp add: power_add [symmetric])
  have "(8::real) = 2 ^ 3" by simp
  also have "\<dots> \<le> 2 ^ 970" by (intro power_increasing) simp_all
  finally have "(8::real) \<le> 2 ^ 970" .
  with a show ?thesis unfolding float_limit_def by linarith
qed

lemma float_limit_ge_pow: "2 ^ 970 \<le> float_limit"
proof -
  have "(2::real) ^ 970 * 2 \<le> 2 ^ 970 * 2 ^ 54" by (intro mult_left_mono) simp_all
  then have "(2::real) ^ 970 * 2 \<le> 2 ^ 1024" by (simp add: power_add [symmetric])
  then show ?thesis unfolding float_limit_def by linarith
qed

lemma float_limit_less_pow: "float_limit < 2 ^ 1024"
  unfolding float_limit_def by simp

lemma to_float_Finite: "\<bar>r\<bar> < float_limit \<Longrightarrow> to_float r = Finite r"
  by (auto simp add: to_float_def)

lemma abs_mult_le_left: "\<bar>b\<bar> \<le> 1 \<Longrightarrow> \<bar>a * b\<bar> \<le> \<bar>a\<bar>" for a b :: real
proof -
  assume "\<bar>b\<bar> \<le> 1"
  then have "\<bar>a\<bar> * \<bar>b\<bar> \<le> \<bar>a\<bar> * 1" by (intro mult_left_mono) simp_all
  then show ?thesis by (simp add: abs_mult)
qed

lemma float_moa_radian:
  assumes "\<bar>moa\<bar> < float_limit"
  shows "float_radians (float_div (Finite moa) 60) = Finite (radians (moa / 60))"
    and "\<bar>radians (moa / 60)\<bar> < float_limit"
proof -
  have a: "\<bar>moa / 60\<bar> \<le> \<bar>moa\<bar>" by simp
  have "pi / 180 \<le> 1" using pi_less_4 by simp
  then have "\<bar>pi / 180\<bar> \<le> 1" using pi_gt_zero by simp
  then have "\<bar>moa / 60 * (pi / 180)\<bar> \<le> \<bar>moa / 60\<bar>" by (rule abs_mult_le_left)
  then have b: "\<bar>moa / 60 * (pi / 180)\<bar> < float_limit" using a assms by linarith
  have c: "moa / 60 * (pi / 180) = radians (moa / 60)" by (simp add: radians_def)
  from a assms have "to_float (moa / 60) = Finite (moa / 60)"
    by (intro to_float_Finite) linarith
  then have "float_radians (float_div (Finite moa) 60) = to_float (moa / 60 * (pi / 180))"
    by (simp only: float_radians_def float_div.simps float_mul.simps)
  also have "\<dots> = Finite (moa / 60 * (pi / 180))" by (rule to_float_Finite [OF b])
  finally show "float_radians (float_div (Finite moa) 60) = Finite (radians (moa / 60))"
    by (simp only: c)
  show "\<bar>radians (moa / 60)\<bar> < float_limit" using b by (simp only: c)
qed

lemma float_uniform_Finite:
  assumes "\<bar>b\<bar> < float_limit" and "0 \<le> u" and "u < 1"
  shows "float_uniform (Finite 0) (Finite b) u = Finite (uniform 0 b u)"
    and "\<bar>uniform 0 b u\<bar> \<le> \<bar>b\<bar>"
proof -
  have u: "\<bar>u\<bar> \<le> 1" using assms(2,3) by simp
  have le: "\<bar>b * u\<bar> \<le> \<bar>b\<bar>" using u by (rule abs_mult_le_left)
  then have lt: "\<bar>b * u\<bar> < float_limit" using assms(1) by linarith
  show "float_uniform (Finite 0) (Finite b) u = Finite (uniform 0 b u)"
    using assms(1) lt by (simp add: float_uniform_def float_sub_def uniform_def to_float_Finite)
  show "\<bar>uniform 0 b u\<bar> \<le> \<bar>b\<bar>" using le by (simp add: uniform_def)
qed

text \<open>With finite parameters the coordinates of a shot are those of the exact model.\<close>

lemma float_shot_step_finite:
  assumes d: "\<bar>distance\<bar> < float_limit" and m: "\<bar>moa_radian\<bar> < float_limit"
    and u: "0 \<le> rng (fdraws s)" "rng (fdraws s) < 1"
    and v: "0 \<le> rng (fdraws s + 1)" "rng (fdraws s + 1) < 1"
  shows "float_shot_step cfg rng (Finite distance) (Finite moa_radian) target_radius i s =
     (let p = draw_shot distance moa_radian (rng (fdraws s)) (rng (fdraws s + 1));
          x = fst p;
          y = snd p;
          s1 = s\<lparr>fdraws := fdraws s + 2\<rparr>
      in if float_limit \<le> x\<^sup>2 \<or> float_limit \<le> y\<^sup>2 then Inl (OverflowError, fdraws s + 2)
         else if float_le (float_pow_half (to_float (x\<^sup>2 + y\<^sup>2))) target_radius then
           (let s2 = s1\<lparr>fhits := fhits s1 + 1\<rparr>
            in if int i < shots cfg
               then Inr (s2\<lparr>fhits_x := fhits_x s2 @ [Finite x], fhits_y := fhits_y s2 @ [Finite y]\<rparr>)
               else Inr s2)
         else if int i < shots cfg
           then Inr (s1\<lparr>fmisses_x := fmisses_x s1 @ [Finite x],
                          fmisses_y := fmisses_y s1 @ [Finite y]\<rparr>)
           else Inr s1)"
proof -
  let ?R = "distance * sin (moa_radian / 2)"
  let ?r = "uniform 0 ?R (rng (fdraws s))"
  let ?a = "uniform 0 (2 * pi) (rng (fdraws s + 1))"
  have h: "float_div (Finite moa_radian) 2 = Finite (moa_radian / 2)"
    using m by (simp add: to_float_Finite)
  have "\<bar>?R\<bar> \<le> \<bar>distance\<bar>" by (intro abs_mult_le_left) simp
  then have R: "\<bar>?R\<bar> < float_limit" using d by linarith
  have mulR: "float_mul (Finite distance) (Finite (sin (moa_radian / 2))) = Finite ?R"
    using R by (simp add: to_float_Finite)
  have r: "float_uniform (Finite 0) (Finite ?R) (rng (fdraws s)) = Finite ?r"
    and rle: "\<bar>?r\<bar> \<le> \<bar>?R\<bar>"
    using float_uniform_Finite [OF R u] by simp_all
  have "\<bar>2 * pi\<bar> < float_limit" using pi_less_4 pi_gt_zero float_limit_ge_8
    by (simp add: abs_if)
  then have a: "float_uniform (Finite 0) (Finite (2 * pi)) (rng (fdraws s + 1)) = Finite ?a"
    using float_uniform_Finite(1) [OF _ v] by simp
  have "\<bar>?r * cos ?a\<bar> \<le> \<bar>?r\<bar>" by (intro abs_mult_le_left) simp
  then have x: "float_mul (Finite ?r) (Finite (cos ?a)) = Finite (?r * cos ?a)"
    using rle R by (simp add: to_float_Finite)
  have "\<bar>?r * sin ?a\<bar> \<le> \<bar>?r\<bar>" by (intro abs_mult_le_left) simp
  then have y: "float_mul (Finite ?r) (Finite (sin ?a)) = Finite (?r * sin ?a)"
    using rle R by (simp add: to_float_Finite)
  have p: "draw_shot distance moa_radian (rng (fdraws s)) (rng (fdraws s + 1)) =
      (?r * cos ?a, ?r * sin ?a)"
    by (simp add: draw_shot_def Let_def)
  show ?thesis
    unfolding float_shot_step_def h float_sin.simps sum.case mulR r a float_cos.simps
      Let_def x y p fst_conv snd_conv float_pow2.simps
    by simp
qed

subsection \<open>Where the loop raises\<close>

lemma float_loop_append:
  "float_loop step (xs @ ys) s =
     (case float_loop step xs s of Inl e \<Rightarrow> Inl e | Inr s' \<Rightarrow> float_loop step ys s')"
  by (induction xs arbitrary: s) (auto split: sum.splits)

lemma float_shot_step_draws:
  assumes "\<forall>k. 0 \<le> rng k \<and> rng k < 1"
    and "\<bar>distance\<bar> < float_limit" and "\<bar>moa\<bar> < float_limit"
    and "fdraws s = 2 * i"
  shows "square_overflows rng distance moa i \<Longrightarrow>
           float_shot_step cfg rng (Finite distance) (Finite (radians (moa / 60)))
             target_radius i s = Inl (OverflowError, 2 * i + 2)"
    and "\<not> square_overflows rng distance moa i \<Longrightarrow>
           \<exists>s'. float_shot_step cfg rng (Finite distance) (Finite (radians (moa / 60)))
                 target_radius i s = Inr s' \<and> fdraws s' = 2 * i + 2"
proof -
  have m: "\<bar>radians (moa / 60)\<bar> < float_limit" using assms(3) by (rule float_moa_radian)
  have u: "0 \<le> rng (fdraws s)" "rng (fdraws s) < 1" "0 \<le> rng (fdraws s + 1)"
    "rng (fdraws s + 1) < 1"
    using assms(1) by simp_all
  have p: "draw_shot distance (radians (moa / 60)) (rng (fdraws s)) (rng (fdraws s + 1)) =
      shot_at rng distance moa i"
    by (simp add: shot_at_def assms(4))
  note step = float_shot_step_finite [OF assms(2) m u, of cfg target_radius i, unfolded p]
  show "float_shot_step cfg rng (Finite distance) (Finite (radians (moa / 60)))
             target_radius i s = Inl (OverflowError, 2 * i + 2)"
    if "square_overflows rng distance moa i"
    using that unfolding step by (simp add: square_overflows_def Let_def assms(4))
  show "\<exists>s'. float_shot_step cfg rng (Finite distance) (Finite (radians (moa / 60)))
                 target_radius i s = Inr s' \<and> fdraws s' = 2 * i + 2"
    if "\<not> square_overflows rng distance moa i"
    using that unfolding step by (simp add: square_overflows_def Let_def assms(4))
qed

lemma float_loop_no_overflow:
  assumes "\<forall>k. 0 \<le> rng k \<and> rng k < 1"
    and "\<bar>distance\<bar> < float_limit" and "\<bar>moa\<bar> < float_limit"
    and "\<forall>i < k. \<not> square_overflows rng distance moa i"
  shows "\<exists>s. float_loop (float_shot_step cfg rng (Finite distance)
                  (Finite (radians (moa / 60))) target_radius) [0..<k] float_init_state = Inr s \<and>
             fdraws s = 2 * k"
  using assms(4)
proof (induction k)
  case 0
  show ?case by (simp add: float_init_state_def)
next
  case (Suc k)
  then obtain s where s: "float_loop (float_shot_step cfg rng (Finite distance)
      (Finite (radians (moa / 60))) target_radius) [0..<k] float_init_state = Inr s"
    and d: "fdraws s = 2 * k"
    by auto
  from Suc.prems have "\<not> square_overflows rng distance moa k" by simp
  from float_shot_step_draws(2) [OF assms(1-3) d this, of cfg target_radius]
  obtain s' where "float_shot_step cfg rng (Finite distance) (Finite (radians (moa / 60)))
      target_radius k s = Inr s'" and "fdraws s' = 2 * k + 2"
    by blast
  then show ?case by (simp add: float_loop_append s)
qed

lemma float_loop_first_overflow:
  assumes "\<forall>k. 0 \<le> rng k \<and> rng k < 1"
    and "\<bar>distance\<bar> < float_limit" and "\<bar>moa\<bar> < float_limit"
    and "i < k" and "square_overflows rng distance moa i"
    and "\<forall>j < i. \<not> square_overflows rng distance moa j"
  shows "float_loop (float_shot_step cfg rng (Finite distance)
           (Finite (radians (moa / 60))) target_radius) [0..<k] float_init_state =
         Inl (OverflowError, 2 * i + 2)"
proof -
  from float_loop_no_overflow [OF assms(1-3,6), of cfg target_radius]
  obtain s where s: "float_loop (float_shot_step cfg rng (Finite distance)
      (Finite (radians (moa / 60))) target_radius) [0..<i] float_init_state = Inr s"
    and d: "fdraws s = 2 * i"
    by blast
  have split: "[0..<k] = [0..<i] @ i # [Suc i..<k]"
  proof -
    have "[0..<k] = [0..<i] @ [i..<k]"
      using assms(4) upt_add_eq_append [of 0 i "k - i"] by simp
    then show ?thesis using assms(4) by (simp add: upt_conv_Cons)
  qed
  show ?thesis
    unfolding split
    by (simp add: float_loop_append s
        float_shot_step_draws(1) [OF assms(1-3) d assms(5), of cfg target_radius])
qed

lemma float_loop_empty_range:
  "simulation_shots cfg = 0 \<Longrightarrow>
     simulate_shots_float cfg rng distance target_size moa = (Inl ZeroDivisionError, 0)"
  by (simp add: simulate_shots_float_def float_init_state_def)

text \<open>
  An infinite dispersion makes \<^verbatim>\<open>math.sin\<close> raise in the first iteration, before the first
  draw.
\<close>

lemma simulate_shots_float_infinite_moa:
  assumes "0 < simulation_shots cfg" and "moa = PosInf \<or> moa = NegInf"
  shows "simulate_shots_float cfg rng distance target_size moa = (Inl ValueError, 0)"
proof -
  have r: "float_radians (float_div moa 60) = moa"
    using assms(2) by (auto simp add: float_radians_def)
  have h: "float_sin (float_div moa 2) = Inl ValueError"
    using assms(2) by auto
  from assms(1) have "[0..<nat (simulation_shots cfg)] = 0 # [1..<nat (simulation_shots cfg)]"
    by (simp add: upt_conv_Cons)
  then show ?thesis
    by (simp add: simulate_shots_float_def r float_shot_step_def h float_init_state_def)
qed

subsection \<open>Agreement with the exact model\<close>

lemma float_shot_step_in_range:
  assumes d: "\<bar>distance\<bar> < float_limit" and m: "\<bar>moa_radian\<bar> < float_limit"
    and u: "0 \<le> rng (draws s)" "rng (draws s) < 1"
    and v: "0 \<le> rng (draws s + 1)" "rng (draws s + 1) < 1"
    and r: "(fst (draw_shot distance moa_radian (rng (draws s)) (rng (draws s + 1))))\<^sup>2 +
            (snd (draw_shot distance moa_radian (rng (draws s)) (rng (draws s + 1))))\<^sup>2
              < float_limit"
  shows "float_shot_step cfg rng (Finite distance) (Finite moa_radian) (Finite target_radius) i
           (float_state_of s) =
         Inr (float_state_of (shot_step cfg rng distance moa_radian target_radius i s))"
proof -
  let ?p = "draw_shot distance moa_radian (rng (draws s)) (rng (draws s + 1))"
  let ?x = "fst ?p" and ?y = "snd ?p"
  have f: "fdraws (float_state_of s) = draws s" by (simp add: float_state_of_def)
  have x: "\<not> float_limit \<le> ?x\<^sup>2"
  proof -
    have "?x\<^sup>2 \<le> ?x\<^sup>2 + ?y\<^sup>2" by simp
    then show ?thesis using r by linarith
  qed
  have y: "\<not> float_limit \<le> ?y\<^sup>2"
  proof -
    have "?y\<^sup>2 \<le> ?x\<^sup>2 + ?y\<^sup>2" by simp
    then show ?thesis using r by linarith
  qed
  have "\<bar>?x\<^sup>2 + ?y\<^sup>2\<bar> < float_limit" using r by simp
  then have t: "to_float (?x\<^sup>2 + ?y\<^sup>2) = Finite (?x\<^sup>2 + ?y\<^sup>2)" by (rule to_float_Finite)
  have o: "float_le (float_pow_half (Finite (?x\<^sup>2 + ?y\<^sup>2))) (Finite target_radius) \<longleftrightarrow>
      on_target target_radius ?p"
    by (simp add: on_target_def case_prod_beta)
  note step = float_shot_step_finite [of distance moa_radian rng "float_state_of s" cfg
      "Finite target_radius" i, unfolded f, OF d m u v]
  show ?thesis
    unfolding step Let_def t o
    using x y by (simp add: shot_step_def Let_def float_state_of_def)
qed

lemma float_loop_in_range:
  assumes "\<forall>k. 0 \<le> rng k \<and> rng k < 1"
    and "\<bar>distance\<bar> < float_limit" and "\<bar>moa\<bar> < float_limit"
    and "\<forall>i < k. (fst (shot_at rng distance moa i))\<^sup>2 + (snd (shot_at rng distance moa i))\<^sup>2
                   < float_limit"
  shows "float_loop (float_shot_step cfg rng (Finite distance) (Finite (radians (moa / 60)))
                       (Finite target_radius)) [0..<k] float_init_state =
         Inr (float_state_of (loop_state cfg rng distance moa target_radius k))"
  using assms(4)
proof (induction k)
  case 0
  show ?case
    by (simp add: float_init_state_def float_state_of_def loop_state_def shots_upto_def)
next
  case (Suc k)
  let ?s = "loop_state cfg rng distance moa target_radius k"
  from Suc have ih: "float_loop (float_shot_step cfg rng (Finite distance)
      (Finite (radians (moa / 60))) (Finite target_radius)) [0..<k] float_init_state =
      Inr (float_state_of ?s)"
    by simp
  have dr: "draws ?s = 2 * k" by (simp add: loop_state_def)
  have m: "\<bar>radians (moa / 60)\<bar> < float_limit" using assms(3) by (rule float_moa_radian)
  have p: "draw_shot distance (radians (moa / 60)) (rng (draws ?s)) (rng (draws ?s + 1)) =
      shot_at rng distance moa k"
    by (simp add: shot_at_def dr)
  have r: "(fst (draw_shot distance (radians (moa / 60)) (rng (draws ?s)) (rng (draws ?s + 1))))\<^sup>2 +
      (snd (draw_shot distance (radians (moa / 60)) (rng (draws ?s)) (rng (draws ?s + 1))))\<^sup>2
        < float_limit"
    unfolding p using Suc.prems by simp
  have u: "0 \<le> rng (draws ?s)" "rng (draws ?s) < 1" "0 \<le> rng (draws ?s + 1)"
    "rng (draws ?s + 1) < 1"
    using assms(1) by simp_all
  have "float_shot_step cfg rng (Finite distance) (Finite (radians (moa / 60)))
      (Finite target_radius) k (float_state_of ?s) =
      Inr (float_state_of (shot_step cfg rng distance (radians (moa / 60)) target_radius k ?s))"
    by (rule float_shot_step_in_range [OF assms(2) m u r])
  then show ?case
    by (simp add: float_loop_append ih shot_step_loop_state)
qed

lemma simulate_shots_float_in_range:
  assumes "\<forall>k. 0 \<le> rng k \<and> rng k < 1"
    and "\<bar>distance\<bar> < float_limit" and "\<bar>target_size\<bar> < float_limit"
    and "\<bar>moa\<bar> < float_limit"
    and "\<forall>i < nat (simulation_shots cfg).
           (fst (shot_at rng distance moa i))\<^sup>2 + (snd (shot_at rng distance moa i))\<^sup>2
             < float_limit"
  shows "simulate_shots_float cfg rng (Finite distance) (Finite target_size) (Finite moa) =
           (map_sum id float_figure_of (fst (simulate_shots cfg rng distance target_size moa)),
            snd (simulate_shots cfg rng distance target_size moa))"
proof -
  have t: "float_div (Finite target_size) 2 = Finite (target_size / 2)"
    using assms(3) by (simp add: to_float_Finite)
  note loop = float_loop_in_range [OF assms(1,2,4,5), of cfg "target_size / 2"]
  show ?thesis
    unfolding simulate_shots_float_def Let_def float_moa_radian(1) [OF assms(4)] t loop
    by (simp add: simulate_shots_def Let_def run_loop_closed float_state_of_def
        float_figure_of_def loop_state_def)
qed

lemma shot_at_norm:
  "(fst (shot_at rng distance moa i))\<^sup>2 + (snd (shot_at rng distance moa i))\<^sup>2 =
     (max_radius distance moa * rng (2 * i))\<^sup>2"
  using draw_shot_norm [of distance "radians (moa / 60)" "rng (2 * i)" "rng (2 * i + 1)"]
  by (simp add: shot_at_def max_radius_def uniform_def)

lemma shot_at_norm_le:
  assumes "0 \<le> rng (2 * i)" and "rng (2 * i) < 1"
  shows "(fst (shot_at rng distance moa i))\<^sup>2 + (snd (shot_at rng distance moa i))\<^sup>2
           \<le> distance\<^sup>2"
proof -
  have "\<bar>max_radius distance moa\<bar> \<le> \<bar>distance\<bar>"
    unfolding max_radius_def by (intro abs_mult_le_left) simp
  moreover have "\<bar>max_radius distance moa * rng (2 * i)\<bar> \<le> \<bar>max_radius distance moa\<bar>"
    using assms by (intro abs_mult_le_left) simp
  ultimately have "\<bar>max_radius distance moa * rng (2 * i)\<bar> \<le> \<bar>distance\<bar>" by linarith
  then have "(max_radius distance moa * rng (2 * i))\<^sup>2 \<le> distance\<^sup>2"
    by (simp only: abs_le_square_iff)
  then show ?thesis by (simp only: shot_at_norm)
qed

lemma no_square_overflow:
  assumes "\<forall>k. 0 \<le> rng k \<and> rng k < 1" and "distance\<^sup>2 < float_limit"
  shows "\<not> square_overflows rng distance moa i"
proof -
  let ?x = "fst (shot_at rng distance moa i)" and ?y = "snd (shot_at rng distance moa i)"
  have "?x\<^sup>2 + ?y\<^sup>2 \<le> distance\<^sup>2"
    using assms(1) by (intro shot_at_norm_le) simp_all
  moreover have "?x\<^sup>2 \<le> ?x\<^sup>2 + ?y\<^sup>2" "?y\<^sup>2 \<le> ?x\<^sup>2 + ?y\<^sup>2" by simp_all
  ultimately show ?thesis using assms(2) unfolding square_overflows_def by linarith
qed

lemma square_less_limit_abs: "d\<^sup>2 < float_limit \<Longrightarrow> \<bar>d\<bar> < float_limit" for d :: real
proof -
  assume a: "d\<^sup>2 < float_limit"
  show ?thesis
  proof (cases "\<bar>d\<bar> \<le> 1")
    case True
    then show ?thesis using float_limit_ge_8 by linarith
  next
    case False
    then have "\<bar>d\<bar> * 1 \<le> \<bar>d\<bar> * \<bar>d\<bar>" by (intro mult_left_mono) simp_all
    then have "\<bar>d\<bar> \<le> d\<^sup>2" by (simp add: power2_eq_square)
    then show ?thesis using a by linarith
  qed
qed

text \<open>
  As long as the square of the distance is in the range of a float, the function on floats
  returns the figure of the exact model.
\<close>

lemma simulate_shots_float_agrees:
  assumes "\<forall>k. 0 \<le> rng k \<and> rng k < 1"
    and "distance\<^sup>2 < float_limit" and "\<bar>target_size\<bar> < float_limit"
    and "\<bar>moa\<bar> < float_limit"
  shows "simulate_shots_float cfg rng (Finite distance) (Finite target_size) (Finite moa) =
           (map_sum id float_figure_of (fst (simulate_shots cfg rng distance target_size moa)),
            snd (simulate_shots cfg rng distance target_size moa))"
proof -
  have "(fst (shot_at rng distance moa i))\<^sup>2 + (snd (shot_at rng distance moa i))\<^sup>2
      < float_limit" for i
    using shot_at_norm_le [of rng i distance moa] assms(1,2) by (simp add: order_le_less_trans)
  then have r: "\<forall>i < nat (simulation_shots cfg).
      (fst (shot_at rng distance moa i))\<^sup>2 + (snd (shot_at rng distance moa i))\<^sup>2
        < float_limit"
    by simp
  have d: "\<bar>distance\<bar> < float_limit" using assms(2) by (rule square_less_limit_abs)
  show ?thesis
    by (rule simulate_shots_float_in_range [OF assms(1) d assms(3,4) r])
qed

text \<open>A run of the exact model with negative parameters.\<close>

lemma simulate_shots_negative_parameters:
  "simulate_shots module_config (\<lambda>_. 0) (- 1) (- 1) (- 1) =
     (Inr \<lparr>trace_hits_x = [], trace_hits_y = [],
           trace_misses_x = replicate 100 0, trace_misses_y = replicate 100 0,
           circle_radius = - (1 / 2), hit_probability = 0, title_percent = 0\<rparr>,
      20000)"
proof -
  have n: "simulation_shots module_config \<noteq> 0"
    "nat (simulation_shots module_config) = 10000"
    "min (nat (simulation_shots module_config)) (nat (shots module_config)) = 100"
    by (simp_all add: module_config_def)
  have s: "shot_at (\<lambda>_. 0) (- 1) (- 1) i = (0, 0)" for i
    by (simp add: shot_at_def draw_shot_def uniform_def)
  have t: "\<not> on_target (- (1 / 2)) (0, 0)"
    by (simp add: on_target_def)
  have d: "displayed module_config (\<lambda>_. 0) (- 1) (- 1) = replicate 100 (0, 0)"
  proof -
    have "shot_at (\<lambda>_. 0) (- 1) (- 1) = (\<lambda>_. (0, 0))"
      by (rule ext) (rule s)
    then show ?thesis
      by (simp add: displayed_def shots_upto_def n(3) map_replicate_const)
  qed
  have h: "hit_count (\<lambda>_. 0) (- 1) (- 1) (- 1) 10000 = 0"
    by (rule hit_count_none) (simp add: s on_target_def)
  have r: "py_round 0 2 = 0" by (simp add: py_round_def)
  show ?thesis
    by (simp add: simulate_shots_closed n d h t r)
qed

section \<open>No validation of the parameters\<close>

text \<open>
  Claim C5, amended. The function validates no parameter and has no failure for an invalid
  one. For finite distance, target diameter and dispersion of any sign, drawn values in
  \<open>[0, 1)\<close> and at least one shot, the call is not stopped before sampling: at least the
  two values of the first shot are taken. It returns a complete figure, after two values
  for each shot, unless the square of a coordinate of some shot is out of the range of a
  float; then line 60 raises \<^verbatim>\<open>OverflowError\<close> at the first such shot, after the two values
  of that shot. With \<open>simulation_shots = 0\<close> the call fails before any value is taken, by
  the \<^verbatim>\<open>ZeroDivisionError\<close> of the title. A call that fails returns no figure.
\<close>

theorem parameters_are_not_validated:
  assumes "\<forall>k. 0 \<le> rng k \<and> rng k < 1"
    and "\<bar>distance\<bar> < float_limit" and "\<bar>moa\<bar> < float_limit"
  shows "(0 < simulation_shots cfg \<longrightarrow>
            2 \<le> snd (simulate_shots_float cfg rng (Finite distance) target_size (Finite moa))) \<and>
         (0 < simulation_shots cfg \<and>
          (\<forall>i < nat (simulation_shots cfg). \<not> square_overflows rng distance moa i) \<longrightarrow>
            (\<exists>fig. simulate_shots_float cfg rng (Finite distance) target_size (Finite moa) =
                     (Inr fig, 2 * nat (simulation_shots cfg)))) \<and>
         (\<forall>i < nat (simulation_shots cfg).
            square_overflows rng distance moa i \<and>
            (\<forall>j < i. \<not> square_overflows rng distance moa j) \<longrightarrow>
            simulate_shots_float cfg rng (Finite distance) target_size (Finite moa) =
              (Inl OverflowError, 2 * i + 2)) \<and>
         (simulation_shots cfg = 0 \<longrightarrow>
            simulate_shots_float cfg rng (Finite distance) target_size (Finite moa) =
              (Inl ZeroDivisionError, 0))"
proof -
  let ?n = "nat (simulation_shots cfg)"
  let ?run = "simulate_shots_float cfg rng (Finite distance) target_size (Finite moa)"
  let ?step = "float_shot_step cfg rng (Finite distance) (Finite (radians (moa / 60)))
      (float_div target_size 2)"
  have run: "?run =
      (case float_loop ?step [0..<?n] float_init_state of
         Inl (e, k) \<Rightarrow> (Inl e, k)
       | Inr s \<Rightarrow>
           if simulation_shots cfg = 0 then (Inl ZeroDivisionError, fdraws s)
           else (Inr \<lparr>ftrace_hits_x = fhits_x s, ftrace_hits_y = fhits_y s,
                     ftrace_misses_x = fmisses_x s, ftrace_misses_y = fmisses_y s,
                     fcircle_radius = float_div target_size 2,
                     fhit_probability = of_int (fhits s) / of_int (simulation_shots cfg),
                     ftitle_percent =
                       py_round (of_int (fhits s) / of_int (simulation_shots cfg) * 100) 2\<rparr>,
                 fdraws s))"
    unfolding simulate_shots_float_def Let_def float_moa_radian(1) [OF assms(3)] ..
  have good: "\<exists>fig. ?run = (Inr fig, 2 * ?n)"
    if "0 < simulation_shots cfg" and "\<forall>i < ?n. \<not> square_overflows rng distance moa i"
  proof -
    from float_loop_no_overflow [OF assms that(2), of cfg "float_div target_size 2"]
    obtain s where "float_loop ?step [0..<?n] float_init_state = Inr s" and "fdraws s = 2 * ?n"
      by blast
    then show ?thesis using that(1) unfolding run by simp
  qed
  have bad: "?run = (Inl OverflowError, 2 * i + 2)"
    if "i < ?n" and "square_overflows rng distance moa i"
      and "\<forall>j < i. \<not> square_overflows rng distance moa j" for i
    unfolding run
    by (simp add: float_loop_first_overflow [OF assms that, of cfg "float_div target_size 2"])
  have first: "2 \<le> snd ?run" if "0 < simulation_shots cfg"
  proof (cases "\<forall>i < ?n. \<not> square_overflows rng distance moa i")
    case True
    from good [OF that True] obtain fig where "?run = (Inr fig, 2 * ?n)" by blast
    then show ?thesis using that by simp
  next
    case False
    then have "\<exists>i. i < ?n \<and> square_overflows rng distance moa i" by blast
    then obtain i where "i < ?n \<and> square_overflows rng distance moa i"
      and "\<forall>j < i. \<not> (j < ?n \<and> square_overflows rng distance moa j)"
      using exists_least_iff [of "\<lambda>i. i < ?n \<and> square_overflows rng distance moa i"] by blast
    then have "?run = (Inl OverflowError, 2 * i + 2)"
      by (intro bad) auto
    then show ?thesis by simp
  qed
  have zero: "?run = (Inl ZeroDivisionError, 0)" if "simulation_shots cfg = 0"
    using that by (rule float_loop_empty_range)
  show ?thesis
    using first good bad zero by blast
qed

theorem parameters_are_not_validated_witness:
  "2 \<le> snd (simulate_shots_float module_config (\<lambda>_. 1 / 2) (Finite (- 1)) (Finite (- (3 / 10)))
            (Finite (- 4))) \<and>
   (\<exists>fig. simulate_shots_float module_config (\<lambda>_. 1 / 2) (Finite (- 1)) (Finite (- (3 / 10)))
            (Finite (- 4)) = (Inr fig, 20000)) \<and>
   square_overflows (\<lambda>_. 1 / 2) (- (2 ^ 600)) 10800 0 \<and>
   simulate_shots_float module_config (\<lambda>_. 1 / 2) (Finite (- (2 ^ 600))) (Finite (- (3 / 10)))
     (Finite 10800) = (Inl OverflowError, 2) \<and>
   simulate_shots_float \<lparr>simulation_shots = 0, shots = 100\<rparr> (\<lambda>_. 1 / 2) (Finite (- 1))
     (Finite (- (3 / 10))) (Finite (- 4)) = (Inl ZeroDivisionError, 0)"
proof -
  have rng: "\<forall>k. (0::real) \<le> (\<lambda>_. 1 / 2) k \<and> (\<lambda>_. 1 / 2 :: real) k < 1" by simp
  have n: "0 < simulation_shots module_config" "nat (simulation_shots module_config) = 10000"
    by (simp_all add: module_config_def)
  have d1: "\<bar>- 1 :: real\<bar> < float_limit" using float_limit_ge_8 by simp
  have m1: "\<bar>- 4 :: real\<bar> < float_limit" using float_limit_ge_8 by simp
  have "(- 1 :: real)\<^sup>2 < float_limit" using float_limit_ge_8 by simp
  then have ok: "\<forall>i < nat (simulation_shots module_config).
      \<not> square_overflows (\<lambda>_. 1 / 2) (- 1) (- 4) i"
    using no_square_overflow [OF rng] by blast
  have "(2::real) ^ 600 < 2 ^ 970" by (intro power_strict_increasing) simp_all
  then have d2: "\<bar>- (2 ^ 600) :: real\<bar> < float_limit" using float_limit_ge_pow by simp
  have "(10800::real) < 2 ^ 14" by simp
  also have "\<dots> \<le> 2 ^ 970" by (intro power_increasing) simp_all
  finally have m2: "\<bar>10800 :: real\<bar> < float_limit" using float_limit_ge_pow by simp
  have x: "fst (shot_at (\<lambda>_. 1 / 2) (- (2 ^ 600)) 10800 0) = 2 ^ 600 / 2"
    by (simp add: shot_at_def draw_shot_def Let_def uniform_def radians_def)
  have "float_limit \<le> (2 ^ 600 / 2)\<^sup>2"
  proof -
    have "(2 ^ 600 / 2 :: real) = 2 ^ 599" by simp
    then have "(2 ^ 600 / 2 :: real)\<^sup>2 = 2 ^ 1198"
      by (simp add: power_mult [symmetric] del: power_Suc)
    moreover have "(2::real) ^ 1024 \<le> 2 ^ 1198" by (intro power_increasing) simp_all
    ultimately show ?thesis using float_limit_less_pow by linarith
  qed
  then have bad: "square_overflows (\<lambda>_. 1 / 2) (- (2 ^ 600)) 10800 0"
    unfolding square_overflows_def x by blast
  have first: "\<forall>j < (0::nat). \<not> square_overflows (\<lambda>_. 1 / 2) (- (2 ^ 600)) 10800 j" by simp
  have z: "simulation_shots \<lparr>simulation_shots = 0, shots = 100\<rparr> = 0" by simp
  note a = parameters_are_not_validated [OF rng d1 m1, of module_config "Finite (- (3 / 10))"]
  note b = parameters_are_not_validated [OF rng d2 m2, of module_config "Finite (- (3 / 10))"]
  note c = parameters_are_not_validated [OF rng d1 m1,
      of "\<lparr>simulation_shots = 0, shots = 100\<rparr>" "Finite (- (3 / 10))"]
  from a n ok have a1: "2 \<le> snd (simulate_shots_float module_config (\<lambda>_. 1 / 2) (Finite (- 1))
      (Finite (- (3 / 10))) (Finite (- 4)))"
    and a2: "\<exists>fig. simulate_shots_float module_config (\<lambda>_. 1 / 2) (Finite (- 1))
      (Finite (- (3 / 10))) (Finite (- 4)) = (Inr fig, 20000)"
    by auto
  have pos: "0 < nat (simulation_shots module_config)" by (simp add: n)
  note b3 = b [THEN conjunct2, THEN conjunct2, THEN conjunct1, rule_format, of 0,
      OF pos conjI [OF bad first]]
  have b1: "simulate_shots_float module_config (\<lambda>_. 1 / 2)
      (Finite (- (2 ^ 600))) (Finite (- (3 / 10))) (Finite 10800) = (Inl OverflowError, 2)"
    using b3 by simp
  from c z have c1: "simulate_shots_float \<lparr>simulation_shots = 0, shots = 100\<rparr> (\<lambda>_. 1 / 2)
      (Finite (- 1)) (Finite (- (3 / 10))) (Finite (- 4)) = (Inl ZeroDivisionError, 0)"
    by blast
  from a1 a2 bad b1 c1 show ?thesis by blast
qed

text \<open>
  Claim C5 as stated fails. Called with distance, target diameter and dispersion all
  \<open>- 1\<close> and every drawn value 0, the function of the module takes 20000 values and
  returns a complete figure: 100 displayed misses at the origin, hit probability 0.
\<close>

theorem negative_parameters_counterexample:
  "simulate_shots_float module_config (\<lambda>_. 0) (Finite (- 1)) (Finite (- 1)) (Finite (- 1)) =
     (Inr \<lparr>ftrace_hits_x = [], ftrace_hits_y = [],
           ftrace_misses_x = replicate 100 (Finite 0),
           ftrace_misses_y = replicate 100 (Finite 0),
           fcircle_radius = Finite (- (1 / 2)), fhit_probability = 0, ftitle_percent = 0\<rparr>,
      20000)"
proof -
  have rng: "\<forall>k. (0::real) \<le> (\<lambda>_. 0) k \<and> (\<lambda>_. 0 :: real) k < 1" by simp
  have d: "(- 1 :: real)\<^sup>2 < float_limit" using float_limit_ge_8 by simp
  have t: "\<bar>- 1 :: real\<bar> < float_limit" using float_limit_ge_8 by simp
  show ?thesis
    unfolding simulate_shots_float_agrees [OF rng d t t] simulate_shots_negative_parameters
    by (simp add: float_figure_of_def)
qed

section \<open>What the hit probability estimates\<close>

lemma on_target_radius_draw:
  assumes "0 < max_radius distance moa" and "0 \<le> rng (2 * i)"
  shows "on_target target_radius (shot_at rng distance moa i) \<longleftrightarrow>
           rng (2 * i) \<le> target_radius / max_radius distance moa"
proof -
  have "\<bar>max_radius distance moa * rng (2 * i)\<bar> = rng (2 * i) * max_radius distance moa"
    using assms by (simp add: abs_mult mult.commute)
  then show ?thesis
    using assms(1) by (simp add: on_target_shot_at pos_le_divide_eq)
qed

lemma hit_count_radius_card:
  assumes "0 < max_radius distance moa" and "\<forall>i < k. 0 \<le> rng (2 * i)"
  shows "hit_count rng distance target_size moa k =
           card {i. i < k \<and> rng (2 * i) \<le> (target_size / 2) / max_radius distance moa}"
proof -
  have "{i. i < k \<and> on_target (target_size / 2) (shot_at rng distance moa i)} =
        {i. i < k \<and> rng (2 * i) \<le> (target_size / 2) / max_radius distance moa}"
    using assms by (auto simp add: on_target_radius_draw)
  then show ?thesis by (simp only: hit_count_card)
qed

lemma even_spread_card:
  fixes c :: real
  assumes "0 < N" and "0 \<le> c"
  shows "\<bar>real (card {i. i < N \<and> real i / real N \<le> c}) / real N - min 1 c\<bar> \<le> 1 / real N"
proof (cases "1 \<le> c")
  case True
  have "real i / real N \<le> c" if "i < N" for i
  proof -
    have "real i / real N \<le> 1" using that assms(1) by simp
    with True show ?thesis by linarith
  qed
  then have "{i. i < N \<and> real i / real N \<le> c} = {..<N}" by auto
  then have "real (card {i. i < N \<and> real i / real N \<le> c}) / real N = 1"
    using assms(1) by simp
  moreover have "min 1 c = 1" using True by simp
  ultimately show ?thesis by simp
next
  case False
  let ?m = "nat \<lfloor>c * real N\<rfloor>"
  have cN: "0 \<le> c * real N" using assms by simp
  have fl: "real ?m \<le> c * real N" "c * real N < real ?m + 1"
    using cN by (simp_all add: of_nat_nat)
  have "c * real N < 1 * real N" using False assms(1) by (intro mult_strict_right_mono) simp_all
  then have mN: "?m < N" using fl(1) by simp
  have iff: "real i / real N \<le> c \<longleftrightarrow> i \<le> ?m" for i
  proof -
    have "real i / real N \<le> c \<longleftrightarrow> real i \<le> c * real N"
      using assms(1) by (simp add: pos_divide_le_eq)
    also have "\<dots> \<longleftrightarrow> int i \<le> \<lfloor>c * real N\<rfloor>"
      by (simp add: le_floor_iff)
    also have "\<dots> \<longleftrightarrow> i \<le> ?m" using cN by (simp add: le_nat_iff)
    finally show ?thesis .
  qed
  have "{i. i < N \<and> real i / real N \<le> c} = {..?m}"
    using mN by (auto simp add: iff)
  then have card: "card {i. i < N \<and> real i / real N \<le> c} = ?m + 1" by simp
  have lo: "c \<le> (real ?m + 1) / real N"
    using fl(2) assms(1) by (simp add: pos_le_divide_eq less_imp_le)
  have "(real ?m + 1) / real N \<le> (c * real N + 1) / real N"
    using fl(1) assms(1) by (intro divide_right_mono) simp_all
  also have "\<dots> = c + 1 / real N" using assms(1) by (simp add: add_divide_distrib)
  finally have hi: "(real ?m + 1) / real N \<le> c + 1 / real N" .
  have mc: "min 1 c = c" using False by simp
  have "real (card {i. i < N \<and> real i / real N \<le> c}) / real N = (real ?m + 1) / real N"
    by (simp add: card)
  moreover have "\<bar>(real ?m + 1) / real N - c\<bar> \<le> 1 / real N"
    using lo hi by linarith
  ultimately show ?thesis by (simp only: mc)
qed

subsection \<open>All sequences of radius draws\<close>

lemma finite_draw_sequences: "finite (draw_sequences m n)"
proof -
  have "draw_sequences m n = {w. set w \<subseteq> {..<m} \<and> length w = n}"
    by (auto simp add: draw_sequences_def)
  then show ?thesis by (simp add: finite_lists_length_eq)
qed

lemma card_draw_sequences: "card (draw_sequences m n) = m ^ n"
proof -
  have "draw_sequences m n = {w. set w \<subseteq> {..<m} \<and> length w = n}"
    by (auto simp add: draw_sequences_def)
  then show ?thesis by (simp add: card_lists_length_eq)
qed

lemma draw_sequences_0: "draw_sequences m 0 = {[]}"
  by (auto simp add: draw_sequences_def)

lemma sum_draw_sequences_Suc:
  fixes f :: "nat list \<Rightarrow> real"
  shows "(\<Sum>w \<in> draw_sequences m (Suc n). f w) =
         (\<Sum>k<m. \<Sum>w \<in> draw_sequences m n. f (k # w))"
proof -
  have eq: "draw_sequences m (Suc n) = (\<lambda>(k, w). k # w) ` ({..<m} \<times> draw_sequences m n)"
    by (auto simp add: draw_sequences_def length_Suc_conv image_iff)
  have inj: "inj_on (\<lambda>(k, w). k # w) ({..<m} \<times> draw_sequences m n)"
    by (auto simp add: inj_on_def)
  have "(\<Sum>w \<in> draw_sequences m (Suc n). f w) =
      (\<Sum>p \<in> {..<m} \<times> draw_sequences m n. f (case p of (k, w) \<Rightarrow> k # w))"
    unfolding eq by (subst sum.reindex [OF inj]) (simp add: comp_def)
  also have "\<dots> = (\<Sum>k<m. \<Sum>w \<in> draw_sequences m n. f (k # w))"
    by (simp add: sum.cartesian_product case_prod_beta)
  finally show ?thesis .
qed

lemma sum_indicator_card:
  fixes m :: nat
  shows "(\<Sum>k<m. if P k then 1 else 0 :: real) = real (card {k. k < m \<and> P k})"
proof -
  have "(\<Sum>k \<in> {k \<in> {..<m}. P k}. 1 :: real) = (\<Sum>k<m. if P k then 1 else 0)"
    by (rule sum.inter_filter) simp
  moreover have "(\<Sum>k \<in> {k \<in> {..<m}. P k}. 1 :: real) = real (card {k \<in> {..<m}. P k})"
    by simp
  moreover have "{k \<in> {..<m}. P k} = {k. k < m \<and> P k}" by auto
  ultimately show ?thesis by simp
qed

lemma sum_squared_deviation:
  fixes P :: "nat \<Rightarrow> bool" and m :: nat
  shows "(\<Sum>w \<in> draw_sequences m n.
            (real m * real (length (filter P w)) - real n * real (card {k. k < m \<and> P k}))\<^sup>2) =
         real n * real (card {k. k < m \<and> P k}) * (real m - real (card {k. k < m \<and> P k}))
           * real m ^ n"
proof -
  define a where "a = real (card {k. k < m \<and> P k})"
  have "(\<Sum>w \<in> draw_sequences m n. (real m * real (length (filter P w)) - real n * a)\<^sup>2) =
         real n * a * (real m - a) * real m ^ n"
  proof (induction n)
  case 0
  show ?case by (simp add: draw_sequences_0)
next
  case (Suc n)
  define D where "D = (\<lambda>w. real m * real (length (filter P w)) - real n * a)"
  define h where "h = (\<lambda>k. if P k then 1 else 0 :: real)"
  define e where "e = (\<lambda>k. real m * h k - a)"
  define S1 where "S1 = (\<Sum>w \<in> draw_sequences m n. D w)"
  define S2 where "S2 = (\<Sum>w \<in> draw_sequences m n. (D w)\<^sup>2)"
  define N where "N = real (m ^ n)"
  have hsum: "(\<Sum>k<m. h k) = a" unfolding a_def h_def by (rule sum_indicator_card)
  have hh: "h k * h k = h k" for k by (simp add: h_def)
  have step: "real m * real (length (filter P (k # w))) - real (Suc n) * a = D w + e k" for k w
    by (simp add: D_def e_def h_def algebra_simps)
  have inner: "(\<Sum>w \<in> draw_sequences m n. (D w + e k)\<^sup>2) = S2 + 2 * e k * S1 + (e k)\<^sup>2 * N"
    for k
  proof -
    have "(D w + e k)\<^sup>2 = (D w)\<^sup>2 + 2 * e k * D w + (e k)\<^sup>2" for w
      by (simp add: power2_eq_square algebra_simps)
    then have "(\<Sum>w \<in> draw_sequences m n. (D w + e k)\<^sup>2) =
        (\<Sum>w \<in> draw_sequences m n. (D w)\<^sup>2 + 2 * e k * D w + (e k)\<^sup>2)"
      by (simp only:)
    also have "\<dots> = S2 + (\<Sum>w \<in> draw_sequences m n. 2 * e k * D w)
        + (\<Sum>w \<in> draw_sequences m n. (e k)\<^sup>2)"
      by (simp only: sum.distrib S2_def)
    also have "(\<Sum>w \<in> draw_sequences m n. 2 * e k * D w) = 2 * e k * S1"
      by (simp only: sum_distrib_left S1_def)
    also have "(\<Sum>w \<in> draw_sequences m n. (e k)\<^sup>2) = (e k)\<^sup>2 * N"
      by (simp add: card_draw_sequences N_def)
    finally show ?thesis .
  qed
  have esum: "(\<Sum>k<m. e k) = 0"
  proof -
    have "(\<Sum>k<m. e k) = real m * (\<Sum>k<m. h k) - (\<Sum>k<m. a)"
      by (simp only: e_def sum_subtractf sum_distrib_left)
    then show ?thesis by (simp add: hsum)
  qed
  have e2: "(e k)\<^sup>2 = (real m)\<^sup>2 * h k - 2 * real m * a * h k + a\<^sup>2" for k
  proof -
    have "(e k)\<^sup>2 = (real m)\<^sup>2 * (h k * h k) - 2 * real m * a * h k + a\<^sup>2"
      by (simp add: e_def power2_eq_square algebra_simps)
    then show ?thesis by (simp only: hh)
  qed
  have e2sum: "(\<Sum>k<m. (e k)\<^sup>2) = real m * a * (real m - a)"
  proof -
    have "(\<Sum>k<m. (e k)\<^sup>2) = (\<Sum>k<m. (real m)\<^sup>2 * h k - 2 * real m * a * h k + a\<^sup>2)"
      by (simp only: e2)
    also have "\<dots> = (real m)\<^sup>2 * (\<Sum>k<m. h k) - 2 * real m * a * (\<Sum>k<m. h k)
        + (\<Sum>k<m. a\<^sup>2)"
      by (simp only: sum.distrib sum_subtractf sum_distrib_left)
    also have "\<dots> = real m * a * (real m - a)"
      by (simp add: hsum power2_eq_square algebra_simps)
    finally show ?thesis .
  qed
  have ih: "S2 = real n * a * (real m - a) * real m ^ n"
    unfolding S2_def D_def by (rule Suc.IH)
  have "(\<Sum>w \<in> draw_sequences m (Suc n).
      (real m * real (length (filter P w)) - real (Suc n) * a)\<^sup>2) =
      (\<Sum>k<m. \<Sum>w \<in> draw_sequences m n. (D w + e k)\<^sup>2)"
    by (simp only: sum_draw_sequences_Suc step)
  also have "\<dots> = (\<Sum>k<m. S2 + 2 * e k * S1 + (e k)\<^sup>2 * N)"
    by (simp only: inner)
  also have "\<dots> = (\<Sum>k<m. S2) + (\<Sum>k<m. 2 * e k * S1) + (\<Sum>k<m. (e k)\<^sup>2 * N)"
    by (simp only: sum.distrib)
  also have "(\<Sum>k<m. 2 * e k * S1) = (\<Sum>k<m. e k) * (2 * S1)"
    by (simp only: sum_distrib_right) (simp add: mult_ac)
  also have "(\<Sum>k<m. (e k)\<^sup>2 * N) = (\<Sum>k<m. (e k)\<^sup>2) * N"
    by (simp only: sum_distrib_right)
  also have "(\<Sum>k<m. S2) = real m * S2" by simp
  finally have "(\<Sum>w \<in> draw_sequences m (Suc n).
      (real m * real (length (filter P w)) - real (Suc n) * a)\<^sup>2) =
      real m * S2 + (\<Sum>k<m. e k) * (2 * S1) + (\<Sum>k<m. (e k)\<^sup>2) * N" .
  also have "\<dots> = real m * (real n * a * (real m - a) * real m ^ n)
      + real m * a * (real m - a) * real m ^ n"
    by (simp add: esum e2sum ih N_def)
  also have "\<dots> = real (Suc n) * a * (real m - a) * real m ^ Suc n"
    by (simp add: algebra_simps)
  finally show ?case .
qed
  then show ?thesis by (simp only: a_def)
qed

lemma markov_count:
  fixes F :: "'a \<Rightarrow> real"
  assumes "finite W" and "\<And>w. w \<in> W \<Longrightarrow> 0 \<le> F w"
  shows "real (card {w \<in> W. t \<le> F w}) * t \<le> sum F W"
proof -
  have "real (card {w \<in> W. t \<le> F w}) * t \<le> sum F {w \<in> W. t \<le> F w}"
    by (rule sum_bounded_below) simp
  also have "\<dots> \<le> sum F W"
    using assms by (intro sum_mono2) auto
  finally show ?thesis .
qed

lemma hit_count_grid:
  assumes "0 < max_radius distance moa" and "w \<in> draw_sequences m n"
  shows "hit_count (grid_rng m w v) distance target_size moa n =
           length (filter (\<lambda>k. real k / real m \<le> (target_size / 2) / max_radius distance moa) w)"
proof -
  let ?c = "(target_size / 2) / max_radius distance moa"
  from assms(2) have len: "length w = n" by (simp add: draw_sequences_def)
  have g: "grid_rng m w v (2 * i) = real (w ! i) / real m" if "i < n" for i
    using that len by (simp add: grid_rng_def)
  have nonneg: "\<forall>i < n. 0 \<le> grid_rng m w v (2 * i)" by (simp add: g)
  have "{i. i < n \<and> grid_rng m w v (2 * i) \<le> ?c} =
        {i. i < length w \<and> real (w ! i) / real m \<le> ?c}"
    using g len by auto
  then show ?thesis
    by (simp only: hit_count_radius_card [OF assms(1) nonneg] length_filter_conv_card)
qed

lemma grid_hit_probability_bounds:
  "0 \<le> grid_hit_probability m c" "grid_hit_probability m c \<le> 1"
proof -
  show "0 \<le> grid_hit_probability m c" by (simp add: grid_hit_probability_def)
  have "{k. k < m \<and> real k / real m \<le> c} \<subseteq> {..<m}" by auto
  then have "card {k. k < m \<and> real k / real m \<le> c} \<le> card {..<m}"
    by (intro card_mono) simp_all
  then have "real (card {k. k < m \<and> real k / real m \<le> c}) \<le> real m" by simp
  then show "grid_hit_probability m c \<le> 1"
    by (cases "m = 0") (simp_all add: grid_hit_probability_def divide_le_eq_1)
qed

lemma quarter_bound: "p * (1 - p) \<le> 1 / 4" for p :: real
proof -
  have "0 \<le> (p - 1 / 2)\<^sup>2" by simp
  then show ?thesis by (simp add: power2_eq_square algebra_simps)
qed

lemma share_algebra:
  fixes a mr nr eps M :: real
  assumes "0 < mr" and "0 < nr" and "0 < eps"
  shows "nr * a * (mr - a) * M / (eps * nr * mr)\<^sup>2 =
         a / mr * (1 - a / mr) / (nr * eps\<^sup>2) * M"
  using assms by (simp add: power2_eq_square field_simps)

lemma deviation_share_bound:
  assumes R: "0 < max_radius distance moa" and n: "0 < simulation_shots cfg"
    and m: "0 < m" and eps: "0 < eps"
  shows "real (card {w \<in> draw_sequences m (nat (simulation_shots cfg)).
             \<exists>fig. fst (simulate_shots cfg (grid_rng m w (v w)) distance target_size moa) = Inr fig \<and>
                   eps \<le> \<bar>hit_probability fig -
                     grid_hit_probability m ((target_size / 2) / max_radius distance moa)\<bar>})
           / real (card (draw_sequences m (nat (simulation_shots cfg))))
         \<le> grid_hit_probability m ((target_size / 2) / max_radius distance moa) *
           (1 - grid_hit_probability m ((target_size / 2) / max_radius distance moa)) /
           (of_int (simulation_shots cfg) * eps\<^sup>2)"
proof -
  let ?n = "nat (simulation_shots cfg)"
  let ?c = "(target_size / 2) / max_radius distance moa"
  let ?P = "\<lambda>k. real k / real m \<le> ?c"
  let ?W = "draw_sequences m ?n"
  let ?p = "grid_hit_probability m ?c"
  define a where "a = real (card {k. k < m \<and> ?P k})"
  define F where "F = (\<lambda>w. (real m * real (length (filter ?P w)) - real ?n * a)\<^sup>2)"
  define t where "t = (eps * real ?n * real m)\<^sup>2"
  let ?B = "{w \<in> ?W. \<exists>fig. fst (simulate_shots cfg (grid_rng m w (v w)) distance target_size moa)
      = Inr fig \<and> eps \<le> \<bar>hit_probability fig - ?p\<bar>}"
  have n0: "simulation_shots cfg \<noteq> 0" and nn: "real_of_int (simulation_shots cfg) = real ?n"
    and npos: "0 < real ?n"
    using n by simp_all
  have mpos: "0 < real m" using m by simp
  have p: "?p = a / real m" by (simp add: grid_hit_probability_def a_def)
  have tpos: "0 < t" unfolding t_def using eps npos mpos by simp
  have sub: "?B \<subseteq> {w \<in> ?W. t \<le> F w}"
  proof
    fix w assume "w \<in> ?B"
    then obtain fig where w: "w \<in> ?W"
      and fig: "fst (simulate_shots cfg (grid_rng m w (v w)) distance target_size moa) = Inr fig"
      and dev: "eps \<le> \<bar>hit_probability fig - ?p\<bar>"
      by blast
    define H where "H = real (length (filter ?P w))"
    define nr where "nr = real ?n"
    define mr where "mr = real m"
    have pos: "0 < nr" "0 < mr" using npos mpos by (simp_all add: nr_def mr_def)
    from simulate_shots_hit_probability [OF n0, of "grid_rng m w (v w)" distance target_size moa]
      fig
    have "hit_probability fig =
        real (hit_count (grid_rng m w (v w)) distance target_size moa ?n) / real ?n"
      by (auto simp add: nn)
    then have hp: "hit_probability fig = H / nr"
      by (simp only: hit_count_grid [OF R w] H_def nr_def)
    have p': "?p = a / mr" by (simp only: p mr_def)
    have e1: "H / nr - a / mr = (mr * H - nr * a) / (nr * mr)"
      using pos by (simp add: field_simps)
    have "\<bar>hit_probability fig - ?p\<bar> = \<bar>(mr * H - nr * a) / (nr * mr)\<bar>"
      by (simp only: hp p' e1)
    also have "\<dots> = \<bar>mr * H - nr * a\<bar> / (nr * mr)"
      using pos by (simp add: abs_mult)
    finally have "eps \<le> \<bar>mr * H - nr * a\<bar> / (nr * mr)" using dev by simp
    then have "eps * (nr * mr) \<le> \<bar>mr * H - nr * a\<bar>"
      using pos by (simp add: pos_le_divide_eq)
    moreover have "0 \<le> eps * (nr * mr)" using eps pos by simp
    ultimately have "(eps * (nr * mr))\<^sup>2 \<le> \<bar>mr * H - nr * a\<bar>\<^sup>2"
      by (intro power_mono)
    then have "(eps * nr * mr)\<^sup>2 \<le> (mr * H - nr * a)\<^sup>2"
      by (simp add: mult.assoc)
    then have "t \<le> F w" by (simp only: t_def F_def H_def nr_def mr_def)
    with w show "w \<in> {w \<in> ?W. t \<le> F w}" by simp
  qed
  have fin: "finite {w \<in> ?W. t \<le> F w}" using finite_draw_sequences by simp
  have "real (card ?B) * t \<le> real (card {w \<in> ?W. t \<le> F w}) * t"
    using card_mono [OF fin sub] tpos by simp
  also have "\<dots> \<le> sum F ?W"
    by (rule markov_count [OF finite_draw_sequences]) (simp add: F_def)
  also have "\<dots> = real ?n * a * (real m - a) * real m ^ ?n"
    unfolding F_def a_def by (rule sum_squared_deviation)
  finally have main: "real (card ?B) * t \<le> real ?n * a * (real m - a) * real m ^ ?n" .
  have "real (card ?B) \<le> real ?n * a * (real m - a) * real m ^ ?n / t"
    using main tpos by (simp add: pos_le_divide_eq)
  also have "\<dots> = ?p * (1 - ?p) / (real ?n * eps\<^sup>2) * real m ^ ?n"
    unfolding p t_def by (rule share_algebra [OF mpos npos eps])
  finally have "real (card ?B) \<le> ?p * (1 - ?p) / (real ?n * eps\<^sup>2) * real m ^ ?n" .
  moreover have "0 < real m ^ ?n" using mpos by simp
  ultimately have "real (card ?B) / real m ^ ?n \<le> ?p * (1 - ?p) / (real ?n * eps\<^sup>2)"
    by (simp add: pos_divide_le_eq)
  then show ?thesis by (simp add: card_draw_sequences nn)
qed

text \<open>
  Claim C8, amended. With a positive cone radius, a target diameter that is positive or 0
  and at least one shot, the hit probability converges to
  \<open>min 1 (target_radius / max_radius)\<close>, the ratio and not its square, within a tolerance
  that shrinks with the square root of the number of shots. In exact arithmetic, for radius
  draws uniform on the grid of a random source of resolution \<open>m\<close> and whatever the angle
  draws: the share \<open>p\<close> of the grid values that hit is within \<open>1 / m\<close> of
  \<open>min 1 (target_radius / max_radius)\<close>; among the equally likely sequences of radius
  draws, the share of those whose hit probability is \<open>eps\<close> or more away from \<open>p\<close> is at
  most \<open>p * (1 - p) / (simulation_shots * eps\<^sup>2)\<close>; and the share of those that are
  \<open>k / (2 * sqrt simulation_shots)\<close> or more away is at most \<open>1 / k\<^sup>2\<close>.
\<close>

theorem hit_probability_converges_to_ratio:
  assumes "0 < max_radius distance moa" and "0 \<le> target_size"
    and "0 < simulation_shots cfg" and "0 < m" and "0 < eps" and "0 < k"
  shows "\<bar>grid_hit_probability m ((target_size / 2) / max_radius distance moa)
            - min 1 ((target_size / 2) / max_radius distance moa)\<bar> \<le> 1 / real m \<and>
         real (card {w \<in> draw_sequences m (nat (simulation_shots cfg)).
             \<exists>fig. fst (simulate_shots cfg (grid_rng m w (v w)) distance target_size moa) = Inr fig \<and>
                   eps \<le> \<bar>hit_probability fig -
                     grid_hit_probability m ((target_size / 2) / max_radius distance moa)\<bar>})
           / real (card (draw_sequences m (nat (simulation_shots cfg))))
           \<le> grid_hit_probability m ((target_size / 2) / max_radius distance moa) *
             (1 - grid_hit_probability m ((target_size / 2) / max_radius distance moa)) /
             (of_int (simulation_shots cfg) * eps\<^sup>2) \<and>
         real (card {w \<in> draw_sequences m (nat (simulation_shots cfg)).
             \<exists>fig. fst (simulate_shots cfg (grid_rng m w (v w)) distance target_size moa) = Inr fig \<and>
                   k / (2 * sqrt (of_int (simulation_shots cfg))) \<le> \<bar>hit_probability fig -
                     grid_hit_probability m ((target_size / 2) / max_radius distance moa)\<bar>})
           / real (card (draw_sequences m (nat (simulation_shots cfg))))
           \<le> 1 / k\<^sup>2"
proof (intro conjI)
  let ?c = "(target_size / 2) / max_radius distance moa"
  let ?p = "grid_hit_probability m ?c"
  have c0: "0 \<le> ?c" using assms(1,2) by simp
  show "\<bar>?p - min 1 ?c\<bar> \<le> 1 / real m"
    unfolding grid_hit_probability_def by (rule even_spread_card [OF assms(4) c0])
  show "real (card {w \<in> draw_sequences m (nat (simulation_shots cfg)).
             \<exists>fig. fst (simulate_shots cfg (grid_rng m w (v w)) distance target_size moa) = Inr fig \<and>
                   eps \<le> \<bar>hit_probability fig - ?p\<bar>})
           / real (card (draw_sequences m (nat (simulation_shots cfg))))
           \<le> ?p * (1 - ?p) / (of_int (simulation_shots cfg) * eps\<^sup>2)"
    by (rule deviation_share_bound [OF assms(1,3,4,5)])
  define nr where "nr = real_of_int (simulation_shots cfg)"
  define tol where "tol = k / (2 * sqrt nr)"
  have nr: "0 < nr" using assms(3) by (simp add: nr_def)
  have tol: "0 < tol" using assms(6) nr by (simp add: tol_def)
  have "(sqrt nr)\<^sup>2 = nr" using nr by simp
  then have t2: "nr * tol\<^sup>2 = k\<^sup>2 / 4"
    using nr by (simp add: tol_def power_divide power_mult_distrib)
  have "?p * (1 - ?p) / (nr * tol\<^sup>2) \<le> (1 / 4) / (nr * tol\<^sup>2)"
    using quarter_bound [of ?p] nr tol by (intro divide_right_mono) simp_all
  also have "\<dots> = 1 / k\<^sup>2" using assms(6) by (simp add: t2)
  finally have q: "?p * (1 - ?p) / (nr * tol\<^sup>2) \<le> 1 / k\<^sup>2" .
  have "real (card {w \<in> draw_sequences m (nat (simulation_shots cfg)).
             \<exists>fig. fst (simulate_shots cfg (grid_rng m w (v w)) distance target_size moa) = Inr fig \<and>
                   tol \<le> \<bar>hit_probability fig - ?p\<bar>})
           / real (card (draw_sequences m (nat (simulation_shots cfg))))
           \<le> ?p * (1 - ?p) / (nr * tol\<^sup>2)"
    unfolding nr_def by (rule deviation_share_bound [OF assms(1,3,4) tol])
  then show "real (card {w \<in> draw_sequences m (nat (simulation_shots cfg)).
             \<exists>fig. fst (simulate_shots cfg (grid_rng m w (v w)) distance target_size moa) = Inr fig \<and>
                   k / (2 * sqrt (of_int (simulation_shots cfg))) \<le> \<bar>hit_probability fig - ?p\<bar>})
           / real (card (draw_sequences m (nat (simulation_shots cfg))))
           \<le> 1 / k\<^sup>2"
    using q unfolding tol_def nr_def by linarith
qed

theorem hit_probability_converges_to_ratio_witness:
  "0 < max_radius 1 10800 \<and> (0::real) \<le> 1 \<and> 0 < simulation_shots module_config \<and>
   (0::nat) < 2 ^ 53 \<and> (0::real) < 1 / 100 \<and> (0::real) < 3 \<and>
   \<bar>grid_hit_probability (2 ^ 53) ((1 / 2) / max_radius 1 10800)
      - min 1 ((1 / 2) / max_radius 1 10800)\<bar> \<le> 1 / real (2 ^ 53) \<and>
   real (card {w \<in> draw_sequences (2 ^ 53) (nat (simulation_shots module_config)).
       \<exists>fig. fst (simulate_shots module_config (grid_rng (2 ^ 53) w (\<lambda>_. 0)) 1 1 10800) = Inr fig \<and>
             3 / (2 * sqrt (of_int (simulation_shots module_config))) \<le> \<bar>hit_probability fig -
               grid_hit_probability (2 ^ 53) ((1 / 2) / max_radius 1 10800)\<bar>})
     / real (card (draw_sequences (2 ^ 53) (nat (simulation_shots module_config))))
     \<le> 1 / 3\<^sup>2"
proof -
  have R: "0 < max_radius 1 10800" by (simp add: max_radius_def radians_def)
  have t: "(0::real) \<le> 1" by simp
  have n: "0 < simulation_shots module_config" by (simp add: module_config_def)
  have m: "(0::nat) < 2 ^ 53" by simp
  have e: "(0::real) < 1 / 100" by simp
  have k: "(0::real) < 3" by simp
  note inst = hit_probability_converges_to_ratio [OF R t n m e k, of "\<lambda>_ _. 0"]
  from inst [THEN conjunct1] inst [THEN conjunct2, THEN conjunct2] R t n m e k
  show ?thesis by blast
qed

text \<open>
  Claim C8 as stated fails. With the 10000 shots of the module, a cone radius of 1, a target
  radius of \<open>1 / 2\<close> and radius values spread evenly over \<open>[0, 1)\<close>, the hit probability is
  \<open>5001 / 10000\<close>. The squared ratio is \<open>1 / 4\<close>, farther away than 50 times the bound
  \<open>1 / (2 * sqrt simulation_shots)\<close> of the standard error.
\<close>

theorem squared_ratio_counterexample:
  "0 < max_radius 1 10800 \<and>
   hit_probability (projr (fst (simulate_shots module_config
       (\<lambda>j. if even j then real (j div 2) / 10000 else 0) 1 1 10800))) = 5001 / 10000 \<and>
   min 1 (((1 / 2) / max_radius 1 10800)\<^sup>2) = 1 / 4 \<and>
   \<not> \<bar>hit_probability (projr (fst (simulate_shots module_config
          (\<lambda>j. if even j then real (j div 2) / 10000 else 0) 1 1 10800)))
        - min 1 (((1 / 2) / max_radius 1 10800)\<^sup>2)\<bar>
      \<le> 50 * (1 / (2 * sqrt (of_int (simulation_shots module_config))))"
proof -
  let ?rng = "\<lambda>j. if even j then real (j div 2) / 10000 else 0"
  have R: "max_radius 1 10800 = 1" by (simp add: max_radius_def radians_def)
  have r: "0 < max_radius 1 10800" by (simp add: R)
  have n: "simulation_shots module_config \<noteq> 0"
    "nat (simulation_shots module_config) = 10000"
    "real_of_int (simulation_shots module_config) = 10000"
    by (simp_all add: module_config_def)
  have p: "\<forall>i < 10000. 0 \<le> ?rng (2 * i)" by simp
  have "{i. i < 10000 \<and> ?rng (2 * i) \<le> (1 / 2) / max_radius 1 10800} = {..5000::nat}"
    by (auto simp add: R)
  then have "hit_count ?rng 1 1 10800 10000 = 5001"
    by (simp add: hit_count_radius_card [OF r p])
  then have hp: "hit_probability (projr (fst (simulate_shots module_config ?rng 1 1 10800)))
      = 5001 / 10000"
    by (simp add: projr_hit_probability [OF n(1)] n)
  have q: "min 1 (((1 / 2) / max_radius 1 10800)\<^sup>2) = 1 / 4"
    by (simp add: R power2_eq_square)
  have s: "sqrt (of_int (simulation_shots module_config)) = 100"
  proof -
    have "sqrt (100\<^sup>2) = 100" by simp
    then show ?thesis by (simp add: n)
  qed
  show ?thesis unfolding hp q s using r by simp
qed

end
